theory Spec2Isabelle
  imports Complex_Main "HOL-Library.Word" "HOL-Library.AList" "HOL-Library.Log_Nat"
begin

unbundle bit_operations_syntax

section \<open>Data model of the Boolean-circuit FHE context\<close>

text \<open>
  The development embeds \<^verbatim>\<open>src/binfhe/lib/binfhecontext.cpp\<close>. Machine integers are
  words of the width the source declares: \<^verbatim>\<open>uint32_t\<close>/\<^verbatim>\<open>usint\<close> is \<open>32 word\<close>,
  \<^verbatim>\<open>uint64_t\<close>, \<^verbatim>\<open>size_t\<close> and \<^verbatim>\<open>NativeInteger\<close> are \<open>64 word\<close>, and the \<^verbatim>\<open>int64_t\<close>
  ring dimension request is a \<open>64 word\<close> read through \<open>sint\<close>.
\<close>

type_synonym uint32_t = "32 word"
type_synonym NativeInteger = "64 word"

text \<open>
  The enumerations. \<open>BINFHE_PARAMSET\<close> lists the eighteen names of the catalogue in the
  source; of \<open>BINFHE_METHOD\<close> the source names only \<open>GINX\<close>, the other constructors stand
  for the remaining enumerators.
\<close>

datatype BINFHE_PARAMSET =
    TOY | MEDIUM | STD128_LMKCDEY | STD128_AP | STD128_APOPT | STD128 | STD128_OPT
  | STD192 | STD192_OPT | STD256 | STD256_OPT | STD128Q | STD128Q_OPT
  | STD192Q | STD192Q_OPT | STD256Q | STD256Q_OPT | SIGNED_MOD_TEST

datatype BINFHE_METHOD = INVALID_METHOD | AP | GINX | LMKCDEY

datatype SECRET_KEY_DIST = GAUSSIAN | UNIFORM_TERNARY

datatype KEYGEN_MODE = SYM_ENCRYPT | PUB_ENCRYPT

datatype DistributionType = HEStd_uniform | HEStd_error | HEStd_ternary

datatype SecurityLevel = HEStd_128_classic | HEStd_192_classic | HEStd_256_classic | HEStd_NotSet

text \<open>
  Every \<^verbatim>\<open>OPENFHE_THROW\<close> of the source is one constructor, named after the error kind the
  specification gives it:
  \<^item> \<open>UnsupportedMethod\<close>: "CGGI is the only supported method";
  \<^item> \<open>UnsupportedProfile\<close>: "STD128 and TOY are the only supported sets";
  \<^item> \<open>ModulusOutOfRange\<close>: "logQ > 29 is not supported" and "logQ < 11 is not supported";
  \<^item> \<open>DimensionMismatch\<close>: "Ciphertext dimension and modulus are not large N and Q";
  \<^item> \<open>InvalidModulus\<close>: "Only support plaintext space to be power-of-two.";
  \<^item> \<open>FunctionRangeError\<close>: "input function should output in Z_{p_output}.";
  \<^item> \<open>DivisionByZero\<close>: a \<^verbatim>\<open>NativeInteger\<close> division whose divisor is zero;
  \<^item> \<open>EngineError\<close>: an exception raised inside the scheme engine.
\<close>

datatype error =
    UnsupportedMethod | UnsupportedProfile | ModulusOutOfRange | DimensionMismatch
  | InvalidModulus | FunctionRangeError | DivisionByZero | EngineError

text \<open>
  The parameter classes. Their constructors only store the arguments (the derived tables
  they precompute come from the engine below), so each class is the record of its fields.
\<close>

record LWECryptoParams =
  lwe_n :: uint32_t
  lwe_N :: uint32_t
  lwe_q :: NativeInteger
  lwe_Q :: NativeInteger
  lwe_qKS :: NativeInteger
  lwe_std :: real
  lwe_baseKS :: uint32_t
  lwe_keyDist :: SECRET_KEY_DIST

type_synonym GPowerMap = "(uint32_t \<times> NativeInteger list) list"

record RingGSWCryptoParams =
  rgsw_N :: uint32_t
  rgsw_Q :: NativeInteger
  rgsw_q :: NativeInteger
  rgsw_baseG :: uint32_t
  rgsw_baseR :: uint32_t
  rgsw_method :: BINFHE_METHOD
  rgsw_std :: real
  rgsw_keyDist :: SECRET_KEY_DIST
  rgsw_signEval :: bool
  rgsw_Gpower_map :: GPowerMap

record BinFHECryptoParams =
  GetLWEParams :: LWECryptoParams
  GetRingGSWParams :: RingGSWCryptoParams

text \<open>
  Key material and ciphertexts are produced and consumed by the scheme engine; the context
  only stores and forwards them. A ciphertext carries its dimension and its modulus; a
  bootstrapping key is a struct of shared pointers, each of which is null in a
  default-constructed key.
\<close>

type_synonym LWEPrivateKey = "NativeInteger list"
type_synonym LWESwitchingKey = "NativeInteger list"
type_synonym RingGSWACCKey = "NativeInteger list"

record LWECiphertext =
  GetLength :: uint32_t
  GetModulus :: NativeInteger
  ct_elements :: "NativeInteger list"

record RingGSWBTKey =
  BSkey :: "RingGSWACCKey option"
  KSkey :: "LWESwitchingKey option"

definition default_RingGSWBTKey :: RingGSWBTKey where
  "default_RingGSWBTKey = \<lparr>BSkey = None, KSkey = None\<rparr>"

datatype BinFHEScheme = BinFHEScheme BINFHE_METHOD

text \<open>
  The context. \<open>m_BTKey_map\<close> is a \<^verbatim>\<open>std::map\<close> from gadget base to bootstrapping key: an
  association list with one pair per key, read with \<open>map_of\<close> and written with
  \<open>AList.update\<close>; its \<^verbatim>\<open>size()\<close> is zero exactly when the list is empty. The operations
  other than context generation are modelled on a context whose parameter and scheme
  pointers are set.
\<close>

record BinFHEContext =
  m_params :: BinFHECryptoParams
  m_binfhescheme :: BinFHEScheme
  m_BTKey :: RingGSWBTKey
  m_BTKey_map :: "(uint32_t \<times> RingGSWBTKey) list"
  m_timeOptimization :: bool

section \<open>The external collaborators\<close>

text \<open>
  The scheme engine, the lattice-parameter table and the prime search live outside the
  embedded file. They are the fields of one record, and every theorem holds for every
  engine. \<open>Scheme_KeyGen\<close> may raise; within one call of \<open>BTKeyGen\<close> it is never applied
  twice to the same parameters, so a function of its arguments also covers a sampling
  engine.
\<close>

record Engine =
  FindRingDim :: "DistributionType \<Rightarrow> SecurityLevel \<Rightarrow> uint32_t \<Rightarrow> uint32_t"
  FirstPrime :: "64 word \<Rightarrow> 64 word \<Rightarrow> NativeInteger"
  PreviousPrime :: "NativeInteger \<Rightarrow> 64 word \<Rightarrow> NativeInteger"
  PreComputeGPower :: "NativeInteger \<Rightarrow> uint32_t \<Rightarrow> bool \<Rightarrow> GPowerMap"
  LWE_SwitchCTtoqn :: "LWECryptoParams \<Rightarrow> LWESwitchingKey option \<Rightarrow> LWECiphertext \<Rightarrow> LWECiphertext"
  Scheme_KeyGen :: "BinFHEScheme \<Rightarrow> BinFHECryptoParams \<Rightarrow> LWEPrivateKey \<Rightarrow> KEYGEN_MODE
                     \<Rightarrow> error + RingGSWBTKey"
  Scheme_EvalNOT :: "BinFHEScheme \<Rightarrow> BinFHECryptoParams \<Rightarrow> LWECiphertext \<Rightarrow> LWECiphertext"

text \<open>
  Modelled from the spec: the constructors of \<^verbatim>\<open>LWECryptoParams\<close> and
  \<^verbatim>\<open>RingGSWCryptoParams\<close> are declared outside the embedded file. They store their
  arguments; the RingGSW one also derives the gadget-power map, which exists only when the
  multi-base flag (its last argument) is set.
\<close>

definition new_LWECryptoParams ::
  "uint32_t \<Rightarrow> uint32_t \<Rightarrow> NativeInteger \<Rightarrow> NativeInteger \<Rightarrow> NativeInteger \<Rightarrow> real \<Rightarrow> uint32_t
    \<Rightarrow> LWECryptoParams" where
  "new_LWECryptoParams n N q Q qKS sd baseKS =
     \<lparr>lwe_n = n, lwe_N = N, lwe_q = q, lwe_Q = Q, lwe_qKS = qKS, lwe_std = sd,
      lwe_baseKS = baseKS, lwe_keyDist = UNIFORM_TERNARY\<rparr>"

definition new_RingGSWCryptoParams ::
  "Engine \<Rightarrow> uint32_t \<Rightarrow> NativeInteger \<Rightarrow> NativeInteger \<Rightarrow> uint32_t \<Rightarrow> uint32_t \<Rightarrow> BINFHE_METHOD
    \<Rightarrow> real \<Rightarrow> SECRET_KEY_DIST \<Rightarrow> bool \<Rightarrow> RingGSWCryptoParams" where
  "new_RingGSWCryptoParams eng N Q q baseG baseR method sd keyDist signEval =
     \<lparr>rgsw_N = N, rgsw_Q = Q, rgsw_q = q, rgsw_baseG = baseG, rgsw_baseR = baseR,
      rgsw_method = method, rgsw_std = sd, rgsw_keyDist = keyDist, rgsw_signEval = signEval,
      rgsw_Gpower_map = PreComputeGPower eng Q baseG signEval\<rparr>"

text \<open>
  Modelled from the spec: \<^verbatim>\<open>RingGSWCryptoParams::Change_BaseG\<close> is declared outside the
  embedded file; it makes the given gadget base the active one.
\<close>

definition Change_BaseG :: "uint32_t \<Rightarrow> BinFHEContext \<Rightarrow> BinFHEContext" where
  "Change_BaseG b ctx =
     ctx\<lparr>m_params := (m_params ctx)\<lparr>GetRingGSWParams :=
            (GetRingGSWParams (m_params ctx))\<lparr>rgsw_baseG := b\<rparr>\<rparr>\<rparr>"

section \<open>Parameter resolution in security-profile mode\<close>

text \<open>
  \<^verbatim>\<open>GenerateBinFHEContext(set, arbFunc, logQ, N, method, timeOptimization)\<close>. The four
  checks come first and raise before any member is written; then the range table picks the
  gadget base and the bit length \<open>logQprime\<close> of the prime search, and the three members
  are assigned and the call returns normally, with the context so written. The parameter
  \<^verbatim>\<open>set\<close> is \<open>pset\<close> here. The comparison \<^verbatim>\<open>N >= ringDim\<close> is made in \<^verbatim>\<open>int64_t\<close>,
  the assignment \<^verbatim>\<open>ringDim = N\<close> truncates to 32 bits, and \<^verbatim>\<open>2 * ringDim\<close> is a 32-bit
  product.
\<close>

definition GenerateBinFHEContext ::
  "Engine \<Rightarrow> BINFHE_PARAMSET \<Rightarrow> bool \<Rightarrow> uint32_t \<Rightarrow> 64 word \<Rightarrow> BINFHE_METHOD \<Rightarrow> bool
    \<Rightarrow> BinFHEContext \<Rightarrow> (error + unit) \<times> BinFHEContext" where
  "GenerateBinFHEContext eng pset arbFunc logQ N method timeOptimization ctx =
    (if GINX \<noteq> method then (Inl UnsupportedMethod, ctx)
     else if pset \<noteq> STD128 \<and> pset \<noteq> TOY then (Inl UnsupportedProfile, ctx)
     else if logQ > 29 then (Inl ModulusOutOfRange, ctx)
     else if logQ < 11 then (Inl ModulusOutOfRange, ctx)
     else
       (Inr (),
        let (baseG, logQprime) =
              (if logQ > 25 then (push_bit 14 1, 54)
               else if logQ > 16 then (push_bit 18 1, 54)
               else if logQ > 11 then (push_bit 27 1, 54)
               else (push_bit 5 1, 27));
            sl = HEStd_128_classic;
            ringDim0 = FindRingDim eng HEStd_ternary sl logQprime;
            ringDim = (if sint N \<ge> uint ringDim0 then ucast N else ringDim0);
            Q = PreviousPrime eng (FirstPrime eng (ucast logQprime) (ucast (2 * ringDim)))
                  (ucast (2 * ringDim));
            q = (if arbFunc then ringDim else 2 * ringDim);
            qKS = push_bit 5 (push_bit 30 1);
            n = (if pset = TOY then 32 else 1305);
            lweparams = new_LWECryptoParams n ringDim (ucast q) Q qKS 3.19 32;
            rgswparams = new_RingGSWCryptoParams eng ringDim Q (ucast q) baseG 23 method 3.19
                           UNIFORM_TERNARY (logQ \<noteq> 11 \<and> timeOptimization)
        in ctx\<lparr>m_timeOptimization := timeOptimization,
               m_params := \<lparr>GetLWEParams = lweparams, GetRingGSWParams = rgswparams\<rparr>,
               m_binfhescheme := BinFHEScheme method\<rparr>))"

section \<open>Switching a ciphertext down and negation\<close>

text \<open>
  \<^verbatim>\<open>SwitchCTtoqn\<close> and \<^verbatim>\<open>EvalNOT\<close> are \<^verbatim>\<open>const\<close> members: they read the context and
  return a value. The guard of \<^verbatim>\<open>SwitchCTtoqn\<close> joins its two comparisons with \<^verbatim>\<open>&&\<close>.
\<close>

definition SwitchCTtoqn ::
  "Engine \<Rightarrow> BinFHEContext \<Rightarrow> LWESwitchingKey option \<Rightarrow> LWECiphertext \<Rightarrow> error + LWECiphertext" where
  "SwitchCTtoqn eng ctx ksk ct =
     (let LWEParams = GetLWEParams (m_params ctx);
          Q = lwe_Q LWEParams;
          N = lwe_N LWEParams
      in if GetLength ct \<noteq> N \<and> GetModulus ct \<noteq> Q then Inl DimensionMismatch
         else Inr (LWE_SwitchCTtoqn eng LWEParams ksk ct))"

definition EvalNOT :: "Engine \<Rightarrow> BinFHEContext \<Rightarrow> LWECiphertext \<Rightarrow> LWECiphertext" where
  "EvalNOT eng ctx ct = Scheme_EvalNOT eng (m_binfhescheme ctx) (m_params ctx) ct"

section \<open>Bootstrapping-key generation\<close>

text \<open>
  \<^verbatim>\<open>m_BTKey_map[k]\<close> read as a value: \<^verbatim>\<open>std::map::operator[]\<close> returns the stored key,
  or inserts a default-constructed key under \<open>k\<close> and returns that.
\<close>

definition map_subscript ::
  "uint32_t \<Rightarrow> (uint32_t \<times> RingGSWBTKey) list \<Rightarrow> RingGSWBTKey \<times> (uint32_t \<times> RingGSWBTKey) list" where
  "map_subscript k m =
     (case map_of m k of
        Some v \<Rightarrow> (v, m)
      | None \<Rightarrow> (default_RingGSWBTKey, AList.update k default_RingGSWBTKey m))"

text \<open>
  The sweep over the copy \<^verbatim>\<open>gpowermap\<close> taken before the loop, in the order of the map.
  Each round makes the round's base active, generates a key (the right-hand side of the
  assignment is evaluated first) and stores it under the base. An exception of the engine
  leaves the loop with the context as the rounds so far have written it.
\<close>

fun BTKeyGen_loop ::
  "Engine \<Rightarrow> LWEPrivateKey \<Rightarrow> KEYGEN_MODE \<Rightarrow> GPowerMap \<Rightarrow> BinFHEContext
    \<Rightarrow> (error + unit) \<times> BinFHEContext" where
  "BTKeyGen_loop eng sk keygenMode [] ctx = (Inr (), ctx)"
| "BTKeyGen_loop eng sk keygenMode (it # rest) ctx =
     (let ctx1 = Change_BaseG (fst it) ctx
      in case Scheme_KeyGen eng (m_binfhescheme ctx1) (m_params ctx1) sk keygenMode of
           Inl e \<Rightarrow> (Inl e, ctx1)
         | Inr k \<Rightarrow>
             BTKeyGen_loop eng sk keygenMode rest
               (ctx1\<lparr>m_BTKey_map := AList.update (fst it) k (m_BTKey_map ctx1)\<rparr>))"

definition BTKeyGen ::
  "Engine \<Rightarrow> LWEPrivateKey \<Rightarrow> KEYGEN_MODE \<Rightarrow> BinFHEContext \<Rightarrow> (error + unit) \<times> BinFHEContext" where
  "BTKeyGen eng sk keygenMode ctx =
     (let temp = rgsw_baseG (GetRingGSWParams (m_params ctx));
          (r, ctx1) =
            (if m_timeOptimization ctx then
               (let gpowermap = rgsw_Gpower_map (GetRingGSWParams (m_params ctx))
                in case BTKeyGen_loop eng sk keygenMode gpowermap ctx of
                     (Inl e, c) \<Rightarrow> (Inl e, c)
                   | (Inr u, c) \<Rightarrow> (Inr (), Change_BaseG temp c))
             else (Inr (), ctx))
      in case r of
           Inl e \<Rightarrow> (Inl e, ctx1)
         | Inr u \<Rightarrow>
             if m_BTKey_map ctx1 \<noteq> [] then
               (let (k, m) = map_subscript temp (m_BTKey_map ctx1)
                in (Inr (), ctx1\<lparr>m_BTKey := k, m_BTKey_map := m\<rparr>))
             else
               (case Scheme_KeyGen eng (m_binfhescheme ctx1) (m_params ctx1) sk keygenMode of
                  Inl e \<Rightarrow> (Inl e, ctx1)
                | Inr k \<Rightarrow>
                    (Inr (), ctx1\<lparr>m_BTKey := k,
                                  m_BTKey_map := AList.update temp k (m_BTKey_map ctx1)\<rparr>)))"

section \<open>Lookup-table construction\<close>

text \<open>
  The guard \<^verbatim>\<open>ceil(log2(x)) != floor(log2(x))\<close> is computed on doubles. \<open>log2(0)\<close> is minus
  infinity, which \<open>ceil\<close> and \<open>floor\<close> both keep, so the two sides are equal at zero. For a
  positive \<open>n\<close>, \<open>ceillog2 n\<close> is the ceiling of the binary logarithm and
  \<open>floorlog 2 n - 1\<close> its floor. This is the guard on exact logarithms. The
  double-precision computation agrees with it for every \<open>x < 2^32\<close> (the first difference
  is near \<open>2^49\<close>); beyond that range the rounding of the conversion to double and of
  \<open>log2\<close> is not modelled, and every statement about the guard is made for \<open>x < 2^32\<close>.
\<close>

definition log2_ceil_ne_floor :: "NativeInteger \<Rightarrow> bool" where
  "log2_ceil_ne_floor x = (x \<noteq> 0 \<and> ceillog2 (unat x) \<noteq> floorlog 2 (unat x) - 1)"

text \<open>
  \<^verbatim>\<open>NativeInteger\<close> is declared outside the embedded file; its division raises on a zero
  divisor, which is an error branch here.
\<close>

definition NativeInteger_div :: "NativeInteger \<Rightarrow> NativeInteger \<Rightarrow> error + NativeInteger" where
  "NativeInteger_div a b = (if b = 0 then Inl DivisionByZero else Inr (a div b))"

text \<open>
  The loop \<^verbatim>\<open>for (size_t i = 0; i < vecSize; ++i)\<close> over the indices in order: the first
  index that raises decides the error, and the vector is returned only when none does.
\<close>

fun LUT_loop ::
  "(NativeInteger \<Rightarrow> NativeInteger \<Rightarrow> NativeInteger) \<Rightarrow> NativeInteger \<Rightarrow> NativeInteger
    \<Rightarrow> NativeInteger \<Rightarrow> nat list \<Rightarrow> error + NativeInteger list" where
  "LUT_loop f p interval outerval [] = Inr []"
| "LUT_loop f p interval outerval (i # rest) =
     (case NativeInteger_div (of_nat i) interval of
        Inl e \<Rightarrow> Inl e
      | Inr m \<Rightarrow>
          (let temp = f m p
           in if temp \<ge> p then Inl FunctionRangeError
              else (case LUT_loop f p interval outerval rest of
                      Inl e \<Rightarrow> Inl e
                    | Inr vec \<Rightarrow> Inr (temp * outerval # vec))))"

text \<open>
  \<^verbatim>\<open>GenerateLUTviaFunction(f, p)\<close> is not a \<^verbatim>\<open>const\<close> member, so it returns the context
  too; no statement of it writes to a member. \<^verbatim>\<open>usint vecSize = q.ConvertToInt()\<close> keeps the
  low 32 bits of \<open>q\<close>.
\<close>

definition GenerateLUTviaFunction ::
  "(NativeInteger \<Rightarrow> NativeInteger \<Rightarrow> NativeInteger) \<Rightarrow> NativeInteger \<Rightarrow> BinFHEContext
    \<Rightarrow> (error + NativeInteger list) \<times> BinFHEContext" where
  "GenerateLUTviaFunction f p ctx =
     ((if log2_ceil_ne_floor p then Inl InvalidModulus
       else
         (let q = lwe_q (GetLWEParams (m_params ctx))
          in case NativeInteger_div q p of
               Inl e \<Rightarrow> Inl e
             | Inr interval \<Rightarrow>
                 (let outerval = interval;
                      vecSize = (ucast q :: uint32_t)
                  in LUT_loop f p interval outerval [0..<unat vecSize]))),
      ctx)"

section \<open>Notions used to state the properties\<close>

text \<open>
  The outcome of the parameter search of security-profile mode, as a function of the bit
  length it runs at: the ring dimension (the table's minimum, or the caller's larger
  request) and the prime found for it.
\<close>

definition search_at :: "Engine \<Rightarrow> 64 word \<Rightarrow> uint32_t \<Rightarrow> uint32_t \<times> NativeInteger" where
  "search_at eng N logQprime =
     (let ringDim0 = FindRingDim eng HEStd_ternary HEStd_128_classic logQprime;
          ringDim = (if sint N \<ge> uint ringDim0 then ucast N else ringDim0)
      in (ringDim,
          PreviousPrime eng (FirstPrime eng (ucast logQprime) (ucast (2 * ringDim)))
            (ucast (2 * ringDim))))"

text \<open>The gadget base, ring dimension and large modulus a context has resolved.\<close>

definition resolved :: "BinFHEContext \<Rightarrow> uint32_t \<times> uint32_t \<times> NativeInteger" where
  "resolved ctx =
     (rgsw_baseG (GetRingGSWParams (m_params ctx)),
      lwe_N (GetLWEParams (m_params ctx)),
      lwe_Q (GetLWEParams (m_params ctx)))"

text \<open>The gadget base that is active in a context, and the bases of its gadget-power map.\<close>

definition active_base :: "BinFHEContext \<Rightarrow> uint32_t" where
  "active_base ctx = rgsw_baseG (GetRingGSWParams (m_params ctx))"

definition gpower_bases :: "BinFHEContext \<Rightarrow> uint32_t set" where
  "gpower_bases ctx = fst ` set (rgsw_Gpower_map (GetRingGSWParams (m_params ctx)))"

text \<open>
  The engine's answer when asked for a bootstrapping key of this context under the gadget
  base \<open>b\<close>.
\<close>

definition key_for ::
  "Engine \<Rightarrow> BinFHEContext \<Rightarrow> LWEPrivateKey \<Rightarrow> KEYGEN_MODE \<Rightarrow> uint32_t \<Rightarrow> error + RingGSWBTKey" where
  "key_for eng ctx sk keygenMode b =
     Scheme_KeyGen eng (m_binfhescheme ctx) (m_params (Change_BaseG b ctx)) sk keygenMode"

text \<open>
  The key map after the sweep has stored, over the map \<open>m\<close>, the keys the engine
  generates for the given entries of the gadget-power map, in their order.
\<close>

definition sweep_keys ::
  "Engine \<Rightarrow> BinFHEContext \<Rightarrow> LWEPrivateKey \<Rightarrow> KEYGEN_MODE \<Rightarrow> GPowerMap
    \<Rightarrow> (uint32_t \<times> RingGSWBTKey) list \<Rightarrow> (uint32_t \<times> RingGSWBTKey) list" where
  "sweep_keys eng ctx sk keygenMode done m =
     fold (\<lambda>it. AList.update (fst it) (projr (key_for eng ctx sk keygenMode (fst it)))) done m"

text \<open>
  The modulus \<^verbatim>\<open>GetParams()->GetLWEParams()->Getq()\<close> that sizes a lookup table, and exact
  powers of two among the 64-bit values.
\<close>

definition LUT_q :: "BinFHEContext \<Rightarrow> NativeInteger" where
  "LUT_q ctx = lwe_q (GetLWEParams (m_params ctx))"

definition is_power_of_two :: "NativeInteger \<Rightarrow> bool" where
  "is_power_of_two p = (\<exists>k<64. p = 2 ^ k)"

section \<open>Concrete inputs\<close>

text \<open>
  A small engine and context on which the theorems are instantiated. The engine's key
  generation records the active gadget base in the key it returns.
\<close>

definition example_engine :: Engine where
  "example_engine =
     \<lparr>FindRingDim = (\<lambda>d s l. 1024),
      FirstPrime = (\<lambda>b m. m + 1),
      PreviousPrime = (\<lambda>x m. x),
      PreComputeGPower = (\<lambda>Q b s. if s then [(2 ^ 14, []), (2 ^ 18, []), (2 ^ 27, [])] else []),
      LWE_SwitchCTtoqn = (\<lambda>ps k c. c\<lparr>GetLength := lwe_n ps, GetModulus := lwe_qKS ps\<rparr>),
      Scheme_KeyGen = (\<lambda>sch ps sk mode.
         Inr \<lparr>BSkey = Some [ucast (rgsw_baseG (GetRingGSWParams ps))], KSkey = Some sk\<rparr>),
      Scheme_EvalNOT = (\<lambda>sch ps c. c)\<rparr>"

definition example_context :: BinFHEContext where
  "example_context =
     \<lparr>m_params =
        \<lparr>GetLWEParams = new_LWECryptoParams 4 16 8 97 97 3.19 32,
         GetRingGSWParams =
           new_RingGSWCryptoParams example_engine 16 97 8 (2 ^ 14) 23 GINX 3.19 UNIFORM_TERNARY True\<rparr>,
      m_binfhescheme = BinFHEScheme GINX,
      m_BTKey = default_RingGSWBTKey,
      m_BTKey_map = [],
      m_timeOptimization = True\<rparr>"

definition example_key :: RingGSWBTKey where
  "example_key = \<lparr>BSkey = Some [7], KSkey = Some [9]\<rparr>"

text \<open>A ciphertext of the small dimension 4 that carries the large modulus 97.\<close>

definition short_ciphertext :: LWECiphertext where
  "short_ciphertext = \<lparr>GetLength = 4, GetModulus = 97, ct_elements = [1, 2, 3, 4, 5]\<rparr>"

text \<open>An engine whose key generation raises under the gadget base \<open>2^18\<close>.\<close>

definition failing_engine :: Engine where
  "failing_engine =
     example_engine\<lparr>Scheme_KeyGen := (\<lambda>sch ps sk mode.
        if rgsw_baseG (GetRingGSWParams ps) = 2 ^ 18 then Inl EngineError
        else Scheme_KeyGen example_engine sch ps sk mode)\<rparr>"

text \<open>The key the example engine returns for the secret key \<open>[1, 0]\<close> under base \<open>b\<close>.\<close>

definition key_at :: "uint32_t \<Rightarrow> RingGSWBTKey" where
  "key_at b = \<lparr>BSkey = Some [ucast b], KSkey = Some [1, 0]\<rparr>"

text \<open>
  Functions handed to the lookup-table construction: negation modulo \<open>p\<close>, which maps
  into \<open>Z_p\<close>; the successor, which leaves \<open>Z_p\<close> at \<open>p - 1\<close>; the constant zero; and a
  function that is in range at 0 only.
\<close>

definition negate_mod :: "NativeInteger \<Rightarrow> NativeInteger \<Rightarrow> NativeInteger" where
  "negate_mod m p = (p - m) mod p"

definition successor :: "NativeInteger \<Rightarrow> NativeInteger \<Rightarrow> NativeInteger" where
  "successor m p = m + 1"

definition zero_function :: "NativeInteger \<Rightarrow> NativeInteger \<Rightarrow> NativeInteger" where
  "zero_function m p = 0"

definition zero_at_origin :: "NativeInteger \<Rightarrow> NativeInteger \<Rightarrow> NativeInteger" where
  "zero_at_origin m p = (if m = 0 then 0 else p)"

text \<open>
  The example context with the LWE parameters of an explicit-mode context whose modulus
  \<open>q = 2^32 + 4\<close> does not fit 32 bits.
\<close>

definition wide_context :: BinFHEContext where
  "wide_context =
     example_context\<lparr>m_params := (m_params example_context)\<lparr>GetLWEParams :=
        new_LWECryptoParams 4 16 4294967300 4294967311 4294967311 3.19 32\<rparr>\<rparr>"

text \<open>The identity, which maps \<open>Z_p\<close> into \<open>Z_p\<close> and leaves it from \<open>p\<close> on.\<close>

definition identity_function :: "NativeInteger \<Rightarrow> NativeInteger \<Rightarrow> NativeInteger" where
  "identity_function m p = m"

text \<open>The example context with a modulus \<open>q = 10\<close> that 4 does not divide.\<close>

definition decimal_context :: BinFHEContext where
  "decimal_context =
     example_context\<lparr>m_params := (m_params example_context)\<lparr>GetLWEParams :=
        new_LWECryptoParams 4 16 10 97 97 3.19 32\<rparr>\<rparr>"

text \<open>
  The example context with RingGSW parameters built without the multi-base flag, so with
  an empty gadget-power map, and with the active gadget base \<open>2^18\<close>.
\<close>

definition bare_context :: BinFHEContext where
  "bare_context =
     example_context\<lparr>m_params := (m_params example_context)\<lparr>GetRingGSWParams :=
        new_RingGSWCryptoParams example_engine 16 97 8 (2 ^ 18) 23 GINX 3.19 UNIFORM_TERNARY False\<rparr>\<rparr>"

section \<open>Switching down: the dimension guard\<close>

lemma SwitchCTtoqn_fails_iff:
  "SwitchCTtoqn eng ctx ksk ct = Inl e \<longleftrightarrow>
     e = DimensionMismatch \<and> GetLength ct \<noteq> lwe_N (GetLWEParams (m_params ctx))
       \<and> GetModulus ct \<noteq> lwe_Q (GetLWEParams (m_params ctx))"
  by (auto simp: SwitchCTtoqn_def Let_def)

text \<open>
  C1. The claim: \<open>SwitchCTtoqn\<close> fails with \<open>DimensionMismatch\<close> when the ciphertext's
  dimension is not \<open>N\<close> or its modulus is not \<open>Q\<close>, so a wrong dimension alone is
  rejected. The guard of the code needs both to differ: a ciphertext of dimension 4 in a
  context of ring dimension 16, carrying the large modulus, passes the guard and is handed
  to the engine.
\<close>

theorem C1_wrong_dimension_passes_guard:
  "GetLength short_ciphertext \<noteq> lwe_N (GetLWEParams (m_params example_context)) \<and>
   GetModulus short_ciphertext = lwe_Q (GetLWEParams (m_params example_context)) \<and>
   SwitchCTtoqn example_engine example_context None short_ciphertext
     = Inr (short_ciphertext\<lparr>GetLength := 4, GetModulus := 97\<rparr>)"
  by (simp add: SwitchCTtoqn_def example_context_def example_engine_def short_ciphertext_def
        new_LWECryptoParams_def Let_def)

section \<open>Security-profile mode\<close>

text \<open>
  C2. The claim: the multi-base flag of the resulting RingGSW parameters is set for every
  call with \<open>logQ \<noteq> 11\<close>. At \<open>logQ = 12\<close> without time optimization the call succeeds
  and the flag is clear.
\<close>

theorem C2_multibase_counterexample:
  "(12 :: uint32_t) \<noteq> 11 \<and>
   fst (GenerateBinFHEContext example_engine STD128 False 12 0 GINX False example_context) = Inr () \<and>
   \<not> rgsw_signEval (GetRingGSWParams (m_params (snd
        (GenerateBinFHEContext example_engine STD128 False 12 0 GINX False example_context))))"
  by (simp add: GenerateBinFHEContext_def Let_def new_RingGSWCryptoParams_def)

text \<open>
  C2, amended. Whenever security-profile resolution succeeds, the multi-base flag of the
  resulting RingGSW parameters is set exactly when \<open>logQ\<close> is not 11 and time
  optimization was requested.
\<close>

theorem C2_multibase_flag:
  "fst (GenerateBinFHEContext eng pset arbFunc logQ N method timeOptimization ctx) = Inr () \<Longrightarrow>
   rgsw_signEval (GetRingGSWParams (m_params (snd
        (GenerateBinFHEContext eng pset arbFunc logQ N method timeOptimization ctx))))
     = (logQ \<noteq> 11 \<and> timeOptimization)"
  by (auto simp: GenerateBinFHEContext_def Let_def new_RingGSWCryptoParams_def
        split: prod.splits if_splits)

theorem C2_multibase_flag_witness:
  "fst (GenerateBinFHEContext example_engine TOY False 20 0 GINX True example_context) = Inr () \<and>
   rgsw_signEval (GetRingGSWParams (m_params (snd
        (GenerateBinFHEContext example_engine TOY False 20 0 GINX True example_context))))"
proof -
  have ok: "fst (GenerateBinFHEContext example_engine TOY False 20 0 GINX True example_context)
              = Inr ()"
    by (simp add: GenerateBinFHEContext_def)
  show ?thesis
    using ok C2_multibase_flag [OF ok] by simp
qed

text \<open>
  C8. With the supported method and a supported profile, security-profile resolution
  succeeds for every \<open>logQ\<close> from 11 to 29 and fails with \<open>ModulusOutOfRange\<close> for every
  other \<open>logQ\<close>.
\<close>

theorem C8_logQ_range:
  "method = GINX \<Longrightarrow> pset = STD128 \<or> pset = TOY \<Longrightarrow>
   fst (GenerateBinFHEContext eng pset arbFunc logQ N method timeOptimization ctx) =
     (if 11 \<le> logQ \<and> logQ \<le> 29 then Inr () else Inl ModulusOutOfRange)"
  by (auto simp: GenerateBinFHEContext_def)

theorem C8_logQ_range_witness:
  "fst (GenerateBinFHEContext example_engine TOY False 20 0 GINX True example_context) = Inr ()
   \<and> fst (GenerateBinFHEContext example_engine TOY False 10 0 GINX True example_context)
       = Inl ModulusOutOfRange
   \<and> fst (GenerateBinFHEContext example_engine STD128 False 30 0 GINX True example_context)
       = Inl ModulusOutOfRange"
  using C8_logQ_range [of GINX TOY example_engine False 20 0 True example_context]
        C8_logQ_range [of GINX TOY example_engine False 10 0 True example_context]
        C8_logQ_range [of GINX STD128 example_engine False 30 0 True example_context]
  by simp

lemma logQ_ranges_nest:
  fixes logQ :: uint32_t
  shows "25 < logQ \<Longrightarrow> 16 < logQ" and "16 < logQ \<Longrightarrow> 11 < logQ"
  by unat_arith+

text \<open>
  C9. For \<open>logQ\<close> from 11 to 29 the range table picks the gadget base and the bit length
  of the search: above 25 the base is \<open>2^14\<close>, above 16 and up to 25 it is \<open>2^18\<close>, above
  11 and up to 16 it is \<open>2^27\<close>, each searched at 54 bits; at 11 the base is \<open>2^5\<close>,
  searched at 27 bits.
\<close>

theorem C9_base_table:
  assumes "11 \<le> logQ" and "logQ \<le> 29" and "pset = STD128 \<or> pset = TOY"
  shows "(25 < logQ \<longrightarrow>
            resolved (snd (GenerateBinFHEContext eng pset arbFunc logQ N GINX tO ctx))
              = (2 ^ 14, search_at eng N 54))
       \<and> (16 < logQ \<and> logQ \<le> 25 \<longrightarrow>
            resolved (snd (GenerateBinFHEContext eng pset arbFunc logQ N GINX tO ctx))
              = (2 ^ 18, search_at eng N 54))
       \<and> (11 < logQ \<and> logQ \<le> 16 \<longrightarrow>
            resolved (snd (GenerateBinFHEContext eng pset arbFunc logQ N GINX tO ctx))
              = (2 ^ 27, search_at eng N 54))
       \<and> (logQ = 11 \<longrightarrow>
            resolved (snd (GenerateBinFHEContext eng pset arbFunc logQ N GINX tO ctx))
              = (2 ^ 5, search_at eng N 27))"
  using assms logQ_ranges_nest [of logQ]
  by (auto simp: GenerateBinFHEContext_def resolved_def search_at_def Let_def
        new_LWECryptoParams_def new_RingGSWCryptoParams_def)

theorem C9_base_table_witness:
  "resolved (snd (GenerateBinFHEContext example_engine TOY False 26 0 GINX True example_context))
     = (2 ^ 14, search_at example_engine 0 54)
   \<and> resolved (snd (GenerateBinFHEContext example_engine TOY False 20 0 GINX True example_context))
     = (2 ^ 18, search_at example_engine 0 54)
   \<and> resolved (snd (GenerateBinFHEContext example_engine TOY False 12 0 GINX True example_context))
     = (2 ^ 27, search_at example_engine 0 54)
   \<and> resolved (snd (GenerateBinFHEContext example_engine TOY False 11 0 GINX True example_context))
     = (2 ^ 5, search_at example_engine 0 27)"
  using C9_base_table [of 26 TOY example_engine False 0 True example_context]
        C9_base_table [of 20 TOY example_engine False 0 True example_context]
        C9_base_table [of 12 TOY example_engine False 0 True example_context]
        C9_base_table [of 11 TOY example_engine False 0 True example_context]
  by simp

section \<open>Negation\<close>

text \<open>
  C10. \<open>EvalNOT\<close> does not depend on the bootstrapping keys: two contexts with the same
  parameters and scheme give the same result on every ciphertext, whatever their active
  key and key map are.
\<close>

theorem C10_EvalNOT_key_independent:
  "m_params c1 = m_params c2 \<Longrightarrow> m_binfhescheme c1 = m_binfhescheme c2 \<Longrightarrow>
     EvalNOT eng c1 ct = EvalNOT eng c2 ct"
  by (simp add: EvalNOT_def)

theorem C10_EvalNOT_key_independent_witness:
  "m_BTKey (example_context\<lparr>m_BTKey := example_key, m_BTKey_map := [(2 ^ 14, example_key)]\<rparr>)
     \<noteq> m_BTKey example_context
   \<and> m_BTKey_map (example_context\<lparr>m_BTKey := example_key, m_BTKey_map := [(2 ^ 14, example_key)]\<rparr>)
     \<noteq> m_BTKey_map example_context
   \<and> EvalNOT example_engine example_context short_ciphertext
     = EvalNOT example_engine
         (example_context\<lparr>m_BTKey := example_key, m_BTKey_map := [(2 ^ 14, example_key)]\<rparr>)
         short_ciphertext"
  using C10_EvalNOT_key_independent [of example_context
      "example_context\<lparr>m_BTKey := example_key, m_BTKey_map := [(2 ^ 14, example_key)]\<rparr>"
      example_engine short_ciphertext]
  by (simp add: example_context_def example_key_def default_RingGSWBTKey_def)

section \<open>Bootstrapping-key generation: the key map\<close>

text \<open>
  C4. Without time optimization, on a key map that is not empty and has no entry for the
  active gadget base, \<open>BTKeyGen\<close> generates no key (the result does not mention the
  engine): the active key becomes a default-constructed key, and the map gains that key
  under the active base.
\<close>

theorem C4_BTKeyGen_missing_entry:
  assumes "\<not> m_timeOptimization ctx" and "m_BTKey_map ctx \<noteq> []"
    and "map_of (m_BTKey_map ctx) (rgsw_baseG (GetRingGSWParams (m_params ctx))) = None"
  shows "BTKeyGen eng sk keygenMode ctx =
           (Inr (), ctx\<lparr>m_BTKey := default_RingGSWBTKey,
                        m_BTKey_map := AList.update (rgsw_baseG (GetRingGSWParams (m_params ctx)))
                                         default_RingGSWBTKey (m_BTKey_map ctx)\<rparr>)
       \<and> map_of (m_BTKey_map (snd (BTKeyGen eng sk keygenMode ctx)))
           = (map_of (m_BTKey_map ctx))
               (rgsw_baseG (GetRingGSWParams (m_params ctx)) \<mapsto> default_RingGSWBTKey)"
  using assms by (simp add: BTKeyGen_def Let_def map_subscript_def update_conv')

theorem C4_BTKeyGen_missing_entry_witness:
  "BTKeyGen example_engine [1, 0] SYM_ENCRYPT
     (example_context\<lparr>m_timeOptimization := False, m_BTKey_map := [(2 ^ 18, example_key)]\<rparr>)
   = (Inr (), example_context\<lparr>m_timeOptimization := False, m_BTKey := default_RingGSWBTKey,
        m_BTKey_map := [(2 ^ 18, example_key), (2 ^ 14, default_RingGSWBTKey)]\<rparr>)"
  using C4_BTKeyGen_missing_entry
    [of "example_context\<lparr>m_timeOptimization := False, m_BTKey_map := [(2 ^ 18, example_key)]\<rparr>"
        example_engine "[1, 0]" SYM_ENCRYPT]
  by (simp add: example_context_def new_RingGSWCryptoParams_def)

section \<open>Bootstrapping-key generation: the sweep\<close>

lemma key_for_step [simp]:
  "key_for eng (Change_BaseG a ctx\<lparr>m_BTKey_map := m\<rparr>) sk mode b = key_for eng ctx sk mode b"
  by (simp add: key_for_def Change_BaseG_def)

lemma Change_BaseG_sel [simp]:
  "m_binfhescheme (Change_BaseG b ctx) = m_binfhescheme ctx"
  "m_BTKey_map (Change_BaseG b ctx) = m_BTKey_map ctx"
  "m_BTKey (Change_BaseG b ctx) = m_BTKey ctx"
  "m_timeOptimization (Change_BaseG b ctx) = m_timeOptimization ctx"
  "rgsw_baseG (GetRingGSWParams (m_params (Change_BaseG b ctx))) = b"
  by (simp_all add: Change_BaseG_def)

lemma loop_Cons:
  "BTKeyGen_loop eng sk mode (it # rest) ctx =
     (case key_for eng ctx sk mode (fst it) of
        Inl e \<Rightarrow> (Inl e, Change_BaseG (fst it) ctx)
      | Inr k \<Rightarrow>
          BTKeyGen_loop eng sk mode rest
            (Change_BaseG (fst it) ctx\<lparr>m_BTKey_map := AList.update (fst it) k (m_BTKey_map ctx)\<rparr>))"
  by (simp add: key_for_def Let_def split: sum.split)

declare BTKeyGen_loop.simps(2) [simp del]

lemma loop_untouched:
  "b \<notin> fst ` set gpm \<Longrightarrow>
     map_of (m_BTKey_map (snd (BTKeyGen_loop eng sk mode gpm ctx))) b = map_of (m_BTKey_map ctx) b"
proof (induction gpm arbitrary: ctx)
  case Nil
  show ?case by simp
next
  case (Cons it rest)
  have m: "m_BTKey_map (Change_BaseG (fst it) ctx) = m_BTKey_map ctx"
    by (simp add: Change_BaseG_def)
  from Cons.prems have nb: "b \<noteq> fst it" and nr: "b \<notin> fst ` set rest" by auto
  show ?case
  proof (cases "key_for eng ctx sk mode (fst it)")
    case (Inl e)
    then show ?thesis by (simp add: loop_Cons)
  next
    case (Inr k)
    then show ?thesis using Cons.IH [OF nr] nb
      by (simp add: loop_Cons update_conv')
  qed
qed

lemma loop_success:
  "\<forall>b\<in>fst ` set gpm. \<exists>k. key_for eng ctx sk mode b = Inr k \<Longrightarrow>
     fst (BTKeyGen_loop eng sk mode gpm ctx) = Inr ()
   \<and> (\<forall>b\<in>fst ` set gpm.
         map_of (m_BTKey_map (snd (BTKeyGen_loop eng sk mode gpm ctx))) b
           = Some (projr (key_for eng ctx sk mode b)))"
proof (induction gpm arbitrary: ctx)
  case Nil
  show ?case by simp
next
  case (Cons it rest)
  have m: "m_BTKey_map (Change_BaseG (fst it) ctx) = m_BTKey_map ctx"
    by (simp add: Change_BaseG_def)
  from Cons.prems obtain k where k: "key_for eng ctx sk mode (fst it) = Inr k" by auto
  let ?c = "Change_BaseG (fst it) ctx\<lparr>m_BTKey_map := AList.update (fst it) k (m_BTKey_map ctx)\<rparr>"
  have step: "BTKeyGen_loop eng sk mode (it # rest) ctx = BTKeyGen_loop eng sk mode rest ?c"
    using k by (simp add: loop_Cons)
  have "\<forall>b\<in>fst ` set rest. \<exists>k. key_for eng ?c sk mode b = Inr k"
    using Cons.prems by simp
  from Cons.IH [OF this]
  have ok: "fst (BTKeyGen_loop eng sk mode rest ?c) = Inr ()"
    and ent: "\<forall>b\<in>fst ` set rest.
         map_of (m_BTKey_map (snd (BTKeyGen_loop eng sk mode rest ?c))) b
           = Some (projr (key_for eng ctx sk mode b))"
    by simp_all
  have "map_of (m_BTKey_map (snd (BTKeyGen_loop eng sk mode rest ?c))) (fst it)
           = Some (projr (key_for eng ctx sk mode (fst it)))"
  proof (cases "fst it \<in> fst ` set rest")
    case True
    then show ?thesis using ent by blast
  next
    case False
    then show ?thesis using loop_untouched [OF False, of eng sk mode ?c] k
      by (simp add: update_conv')
  qed
  then show ?case using ok ent step by simp
qed

lemma loop_distinct:
  "distinct (map fst (m_BTKey_map ctx)) \<Longrightarrow>
     distinct (map fst (m_BTKey_map (snd (BTKeyGen_loop eng sk mode gpm ctx))))"
proof (induction gpm arbitrary: ctx)
  case Nil
  then show ?case by simp
next
  case (Cons it rest)
  have m: "m_BTKey_map (Change_BaseG (fst it) ctx) = m_BTKey_map ctx"
    by (simp add: Change_BaseG_def)
  show ?case
  proof (cases "key_for eng ctx sk mode (fst it)")
    case (Inl e)
    then show ?thesis using Cons.prems by (simp add: loop_Cons)
  next
    case (Inr k)
    have "distinct (map fst (AList.update (fst it) k (m_BTKey_map ctx)))"
      using Cons.prems by (simp add: distinct_update)
    then show ?thesis using Inr Cons.IH
      by (simp add: loop_Cons)
  qed
qed


lemma map_subscript_map_of:
  "map_of (snd (map_subscript k m)) = (map_of m)(k \<mapsto> fst (map_subscript k m))"
  by (auto simp: map_subscript_def update_conv' split: option.splits)

lemma map_subscript_present:
  "map_of m k = Some v \<Longrightarrow> map_subscript k m = (v, m)"
  by (simp add: map_subscript_def)

lemma map_subscript_distinct:
  "distinct (map fst m) \<Longrightarrow> distinct (map fst (snd (map_subscript k m)))"
  by (simp add: map_subscript_def distinct_update split: option.splits)

lemma loop_dom:
  assumes "\<forall>b\<in>fst ` set gpm. \<exists>k. key_for eng ctx sk mode b = Inr k"
  shows "dom (map_of (m_BTKey_map (snd (BTKeyGen_loop eng sk mode gpm ctx))))
           = dom (map_of (m_BTKey_map ctx)) \<union> fst ` set gpm"
proof (rule set_eqI)
  fix b
  show "b \<in> dom (map_of (m_BTKey_map (snd (BTKeyGen_loop eng sk mode gpm ctx))))
      \<longleftrightarrow> b \<in> dom (map_of (m_BTKey_map ctx)) \<union> fst ` set gpm"
  proof (cases "b \<in> fst ` set gpm")
    case True
    then show ?thesis using loop_success [OF assms] by auto
  next
    case False
    then show ?thesis using loop_untouched [OF False, of eng sk mode ctx] by (simp add: dom_def)
  qed
qed

lemma BTKeyGen_after_loop:
  assumes "m_timeOptimization ctx"
    and "fst (BTKeyGen_loop eng sk mode (rgsw_Gpower_map (GetRingGSWParams (m_params ctx))) ctx)
           = Inr ()"
    and "m_BTKey_map (snd (BTKeyGen_loop eng sk mode
            (rgsw_Gpower_map (GetRingGSWParams (m_params ctx))) ctx)) \<noteq> []"
  shows "BTKeyGen eng sk mode ctx =
     (let c = Change_BaseG (active_base ctx)
                (snd (BTKeyGen_loop eng sk mode (rgsw_Gpower_map (GetRingGSWParams (m_params ctx))) ctx));
          km = map_subscript (active_base ctx) (m_BTKey_map c)
      in (Inr (), c\<lparr>m_BTKey := fst km, m_BTKey_map := snd km\<rparr>))"
proof -
  obtain c where L: "BTKeyGen_loop eng sk mode (rgsw_Gpower_map (GetRingGSWParams (m_params ctx))) ctx
                       = (Inr (), c)"
    using assms(2)
    by (cases "BTKeyGen_loop eng sk mode (rgsw_Gpower_map (GetRingGSWParams (m_params ctx))) ctx")
       auto
  have ne: "m_BTKey_map c \<noteq> []" using assms(3) L by simp
  show ?thesis
    using assms(1) L ne
    by (simp add: BTKeyGen_def active_base_def Let_def case_prod_beta)
qed


lemma Change_BaseG_active [simp]: "Change_BaseG (active_base ctx) ctx = ctx"
  by (simp add: Change_BaseG_def active_base_def)

lemma BTKeyGen_fresh:
  assumes "m_BTKey_map ctx = []"
    and "\<not> m_timeOptimization ctx \<or> rgsw_Gpower_map (GetRingGSWParams (m_params ctx)) = []"
    and "key_for eng ctx sk mode (active_base ctx) = Inr k"
  shows "BTKeyGen eng sk mode ctx =
           (Inr (), ctx\<lparr>m_BTKey := k, m_BTKey_map := [(active_base ctx, k)]\<rparr>)"
proof -
  have c: "Change_BaseG (rgsw_baseG (GetRingGSWParams (m_params ctx))) ctx = ctx"
    using Change_BaseG_active [of ctx] by (simp add: active_base_def)
  have k: "Scheme_KeyGen eng (m_binfhescheme ctx) (m_params ctx) sk mode = Inr k"
    using assms(3) by (simp add: key_for_def)
  show ?thesis
    using assms(1,2) k c
    by (auto simp: BTKeyGen_def Let_def active_base_def)
qed

lemma BTKeyGen_timeOpt:
  assumes tO: "m_timeOptimization ctx"
    and ok: "\<forall>b\<in>insert (active_base ctx) (gpower_bases ctx). \<exists>k. key_for eng ctx sk mode b = Inr k"
  shows "fst (BTKeyGen eng sk mode ctx) = Inr ()
      \<and> (\<forall>b\<in>gpower_bases ctx.
            map_of (m_BTKey_map (snd (BTKeyGen eng sk mode ctx))) b
              = Some (projr (key_for eng ctx sk mode b)))
      \<and> dom (map_of (m_BTKey_map (snd (BTKeyGen eng sk mode ctx))))
          = dom (map_of (m_BTKey_map ctx)) \<union> gpower_bases ctx \<union> {active_base ctx}
      \<and> (distinct (map fst (m_BTKey_map ctx)) \<longrightarrow>
            distinct (map fst (m_BTKey_map (snd (BTKeyGen eng sk mode ctx)))))
      \<and> map_of (m_BTKey_map (snd (BTKeyGen eng sk mode ctx))) (active_base ctx)
          = Some (m_BTKey (snd (BTKeyGen eng sk mode ctx)))
      \<and> active_base (snd (BTKeyGen eng sk mode ctx)) = active_base ctx"
proof -
  let ?gpm = "rgsw_Gpower_map (GetRingGSWParams (m_params ctx))"
  let ?L = "BTKeyGen_loop eng sk mode ?gpm ctx"
  let ?t = "active_base ctx"
  have okb: "\<forall>b\<in>fst ` set ?gpm. \<exists>k. key_for eng ctx sk mode b = Inr k"
    and okt: "\<exists>k. key_for eng ctx sk mode ?t = Inr k"
    using ok by (simp_all add: gpower_bases_def)
  have Lok: "fst ?L = Inr ()"
    and Lent: "\<forall>b\<in>fst ` set ?gpm.
                 map_of (m_BTKey_map (snd ?L)) b = Some (projr (key_for eng ctx sk mode b))"
    using loop_success [OF okb] by simp_all
  have Ldom: "dom (map_of (m_BTKey_map (snd ?L))) = dom (map_of (m_BTKey_map ctx)) \<union> fst ` set ?gpm"
    by (rule loop_dom [OF okb])
  show ?thesis
  proof (cases "m_BTKey_map (snd ?L) = []")
    case True
    then have "dom (map_of (m_BTKey_map ctx)) \<union> fst ` set ?gpm = {}"
      using Ldom by simp
    then have e: "m_BTKey_map ctx = []" and g: "?gpm = []"
      by (simp_all add: dom_map_of_conv_image_fst)
    from okt obtain k' where k': "key_for eng ctx sk mode ?t = Inr k'" by blast
    have "BTKeyGen eng sk mode ctx
            = (Inr (), ctx\<lparr>m_BTKey := k', m_BTKey_map := [(?t, k')]\<rparr>)"
      using BTKeyGen_fresh [OF e _ k'] g by simp
    then show ?thesis using e g
      by (simp add: gpower_bases_def active_base_def)
  next
    case False
    let ?c = "Change_BaseG ?t (snd ?L)"
    let ?km = "map_subscript ?t (m_BTKey_map (snd ?L))"
    have B: "BTKeyGen eng sk mode ctx = (Inr (), ?c\<lparr>m_BTKey := fst ?km, m_BTKey_map := snd ?km\<rparr>)"
      using BTKeyGen_after_loop [OF tO Lok False] by (simp add: Let_def)
    have mo: "map_of (snd ?km) = (map_of (m_BTKey_map (snd ?L)))(?t \<mapsto> fst ?km)"
      by (rule map_subscript_map_of)
    have ent: "\<forall>b\<in>gpower_bases ctx. map_of (snd ?km) b = Some (projr (key_for eng ctx sk mode b))"
    proof
      fix b assume b: "b \<in> gpower_bases ctx"
      then have s: "map_of (m_BTKey_map (snd ?L)) b = Some (projr (key_for eng ctx sk mode b))"
        using Lent unfolding gpower_bases_def by blast
      show "map_of (snd ?km) b = Some (projr (key_for eng ctx sk mode b))"
      proof (cases "b = ?t")
        case True
        then show ?thesis using s map_subscript_present [of "m_BTKey_map (snd ?L)" ?t] by simp
      next
        case False
        then show ?thesis using s mo by simp
      qed
    qed
    have d: "dom (map_of (snd ?km)) = dom (map_of (m_BTKey_map ctx)) \<union> gpower_bases ctx \<union> {?t}"
      unfolding mo gpower_bases_def using Ldom by auto
    have di: "distinct (map fst (m_BTKey_map ctx)) \<longrightarrow> distinct (map fst (snd ?km))"
      using loop_distinct [of ctx eng sk mode ?gpm]
        map_subscript_distinct [of "m_BTKey_map (snd ?L)" ?t] by blast
    have ac: "map_of (snd ?km) ?t = Some (fst ?km)" unfolding mo by simp
    have s1: "fst (BTKeyGen eng sk mode ctx) = Inr ()" unfolding B by simp
    have s2: "m_BTKey_map (snd (BTKeyGen eng sk mode ctx)) = snd ?km" unfolding B by simp
    have s3: "m_BTKey (snd (BTKeyGen eng sk mode ctx)) = fst ?km" unfolding B by simp
    have s4: "active_base (snd (BTKeyGen eng sk mode ctx)) = ?t"
      unfolding B by (simp add: active_base_def)
    show ?thesis unfolding s2 s3 using s1 s4 ent d di ac by blast
  qed
qed

text \<open>
  C3. With time optimization, when the engine can generate a key under the active base
  and under every base of the gadget-power map, \<open>BTKeyGen\<close> returns normally; the key
  map then holds, under every base of the gadget-power map, the key generated under that
  base; its keys are the old ones, those bases and the base that was active at the start
  (one pair per key); the active key is the map's entry for that base, which is active
  again. Without time optimization, on an empty key map, the map afterwards holds exactly
  one entry, the generated key under the active base, and that key is the active one.
\<close>

theorem C3_BTKeyGen_entries:
  "(m_timeOptimization ctx \<and>
      (\<forall>b\<in>insert (active_base ctx) (gpower_bases ctx). \<exists>k. key_for eng ctx sk mode b = Inr k) \<longrightarrow>
        fst (BTKeyGen eng sk mode ctx) = Inr ()
      \<and> (\<forall>b\<in>gpower_bases ctx.
            map_of (m_BTKey_map (snd (BTKeyGen eng sk mode ctx))) b
              = Some (projr (key_for eng ctx sk mode b)))
      \<and> dom (map_of (m_BTKey_map (snd (BTKeyGen eng sk mode ctx))))
          = dom (map_of (m_BTKey_map ctx)) \<union> gpower_bases ctx \<union> {active_base ctx}
      \<and> (distinct (map fst (m_BTKey_map ctx)) \<longrightarrow>
            distinct (map fst (m_BTKey_map (snd (BTKeyGen eng sk mode ctx)))))
      \<and> map_of (m_BTKey_map (snd (BTKeyGen eng sk mode ctx))) (active_base ctx)
          = Some (m_BTKey (snd (BTKeyGen eng sk mode ctx)))
      \<and> active_base (snd (BTKeyGen eng sk mode ctx)) = active_base ctx)
   \<and> (\<not> m_timeOptimization ctx \<and> m_BTKey_map ctx = [] \<and>
        key_for eng ctx sk mode (active_base ctx) = Inr k \<longrightarrow>
          BTKeyGen eng sk mode ctx
            = (Inr (), ctx\<lparr>m_BTKey := k, m_BTKey_map := [(active_base ctx, k)]\<rparr>))"
proof (rule conjI)
  show "\<not> m_timeOptimization ctx \<and> m_BTKey_map ctx = [] \<and>
        key_for eng ctx sk mode (active_base ctx) = Inr k \<longrightarrow>
          BTKeyGen eng sk mode ctx
            = (Inr (), ctx\<lparr>m_BTKey := k, m_BTKey_map := [(active_base ctx, k)]\<rparr>)"
    by (simp add: BTKeyGen_fresh)
next
  show "m_timeOptimization ctx \<and>
      (\<forall>b\<in>insert (active_base ctx) (gpower_bases ctx). \<exists>k. key_for eng ctx sk mode b = Inr k) \<longrightarrow>
        fst (BTKeyGen eng sk mode ctx) = Inr ()
      \<and> (\<forall>b\<in>gpower_bases ctx.
            map_of (m_BTKey_map (snd (BTKeyGen eng sk mode ctx))) b
              = Some (projr (key_for eng ctx sk mode b)))
      \<and> dom (map_of (m_BTKey_map (snd (BTKeyGen eng sk mode ctx))))
          = dom (map_of (m_BTKey_map ctx)) \<union> gpower_bases ctx \<union> {active_base ctx}
      \<and> (distinct (map fst (m_BTKey_map ctx)) \<longrightarrow>
            distinct (map fst (m_BTKey_map (snd (BTKeyGen eng sk mode ctx)))))
      \<and> map_of (m_BTKey_map (snd (BTKeyGen eng sk mode ctx))) (active_base ctx)
          = Some (m_BTKey (snd (BTKeyGen eng sk mode ctx)))
      \<and> active_base (snd (BTKeyGen eng sk mode ctx)) = active_base ctx"
  proof (rule impI, elim conjE)
    assume tO: "m_timeOptimization ctx"
      and ok: "\<forall>b\<in>insert (active_base ctx) (gpower_bases ctx). \<exists>k. key_for eng ctx sk mode b = Inr k"
    show "fst (BTKeyGen eng sk mode ctx) = Inr ()
      \<and> (\<forall>b\<in>gpower_bases ctx.
            map_of (m_BTKey_map (snd (BTKeyGen eng sk mode ctx))) b
              = Some (projr (key_for eng ctx sk mode b)))
      \<and> dom (map_of (m_BTKey_map (snd (BTKeyGen eng sk mode ctx))))
          = dom (map_of (m_BTKey_map ctx)) \<union> gpower_bases ctx \<union> {active_base ctx}
      \<and> (distinct (map fst (m_BTKey_map ctx)) \<longrightarrow>
            distinct (map fst (m_BTKey_map (snd (BTKeyGen eng sk mode ctx)))))
      \<and> map_of (m_BTKey_map (snd (BTKeyGen eng sk mode ctx))) (active_base ctx)
          = Some (m_BTKey (snd (BTKeyGen eng sk mode ctx)))
      \<and> active_base (snd (BTKeyGen eng sk mode ctx)) = active_base ctx"
      by (rule BTKeyGen_timeOpt [OF tO ok])
  qed
qed



lemma example_bases:
  "gpower_bases example_context = {2 ^ 14, 2 ^ 18, 2 ^ 27}"
  "active_base example_context = 2 ^ 14"
  "rgsw_Gpower_map (GetRingGSWParams (m_params example_context))
     = [(2 ^ 14, []), (2 ^ 18, []), (2 ^ 27, [])]"
  by (simp_all add: gpower_bases_def active_base_def example_context_def
        new_RingGSWCryptoParams_def example_engine_def)

lemma example_key_for:
  "key_for example_engine example_context [1, 0] SYM_ENCRYPT b = Inr (key_at b)"
  "key_for example_engine (example_context\<lparr>m_timeOptimization := False\<rparr>) [1, 0] SYM_ENCRYPT b
     = Inr (key_at b)"
  by (simp_all add: key_for_def example_engine_def key_at_def Change_BaseG_def)

lemma example_fields:
  "m_timeOptimization example_context" "m_BTKey_map example_context = []"
  "m_BTKey example_context = default_RingGSWBTKey"
  by (simp_all add: example_context_def)

theorem C3_BTKeyGen_entries_witness:
  "fst (BTKeyGen example_engine [1, 0] SYM_ENCRYPT example_context) = Inr ()
   \<and> map_of (m_BTKey_map (snd (BTKeyGen example_engine [1, 0] SYM_ENCRYPT example_context))) (2 ^ 18)
       = Some (key_at (2 ^ 18))
   \<and> dom (map_of (m_BTKey_map (snd (BTKeyGen example_engine [1, 0] SYM_ENCRYPT example_context))))
       = {2 ^ 14, 2 ^ 18, 2 ^ 27}
   \<and> m_BTKey (snd (BTKeyGen example_engine [1, 0] SYM_ENCRYPT example_context)) = key_at (2 ^ 14)
   \<and> BTKeyGen example_engine [1, 0] SYM_ENCRYPT (example_context\<lparr>m_timeOptimization := False\<rparr>)
       = (Inr (), example_context\<lparr>m_timeOptimization := False, m_BTKey := key_at (2 ^ 14),
                    m_BTKey_map := [(2 ^ 14, key_at (2 ^ 14))]\<rparr>)"
proof -
  have h1: "m_timeOptimization example_context \<and>
      (\<forall>b\<in>insert (active_base example_context) (gpower_bases example_context).
         \<exists>k. key_for example_engine example_context [1, 0] SYM_ENCRYPT b = Inr k)"
    using example_fields by (simp add: example_key_for)
  have h2: "\<not> m_timeOptimization (example_context\<lparr>m_timeOptimization := False\<rparr>)
      \<and> m_BTKey_map (example_context\<lparr>m_timeOptimization := False\<rparr>) = []
      \<and> key_for example_engine (example_context\<lparr>m_timeOptimization := False\<rparr>) [1, 0] SYM_ENCRYPT
            (active_base (example_context\<lparr>m_timeOptimization := False\<rparr>)) = Inr (key_at (2 ^ 14))"
    using example_bases(2) example_fields by (simp add: example_key_for active_base_def)
  have a2: "active_base (example_context\<lparr>m_timeOptimization := False\<rparr>) = 2 ^ 14"
    using example_bases(2) by (simp add: active_base_def)
  note t = C3_BTKeyGen_entries [of example_context example_engine "[1, 0]" SYM_ENCRYPT, THEN conjunct1, THEN mp, OF h1]
  note f = C3_BTKeyGen_entries [of "example_context\<lparr>m_timeOptimization := False\<rparr>" example_engine "[1, 0]" SYM_ENCRYPT
             "key_at (2 ^ 14)", THEN conjunct2, THEN mp, OF h2, unfolded a2]
  have t': "fst (BTKeyGen example_engine [1, 0] SYM_ENCRYPT example_context) = Inr ()
      \<and> map_of (m_BTKey_map (snd (BTKeyGen example_engine [1, 0] SYM_ENCRYPT example_context))) (2 ^ 18)
          = Some (key_at (2 ^ 18))
      \<and> dom (map_of (m_BTKey_map (snd (BTKeyGen example_engine [1, 0] SYM_ENCRYPT example_context))))
          = {2 ^ 14, 2 ^ 18, 2 ^ 27}
      \<and> Some (key_at (2 ^ 14))
          = Some (m_BTKey (snd (BTKeyGen example_engine [1, 0] SYM_ENCRYPT example_context)))"
    using t by (clarsimp simp add: example_bases example_key_for example_fields)
  show ?thesis using t' f by simp
qed


section \<open>Lookup tables\<close>

lemma floorlog_2_power: "floorlog 2 (2 ^ k) = Suc k"
  using floorlog_power [of 1 2 k] by (simp add: compute_floorlog)

lemma log2_integral_nat:
  assumes "0 < n"
  shows "ceillog2 n = floorlog 2 n - 1 \<longleftrightarrow> (\<exists>k. n = 2 ^ k)"
proof
  assume e: "ceillog2 n = floorlog 2 n - 1"
  have "n \<le> 2 ^ ceillog2 n" by (rule le_two_power_ceillog2)
  moreover have "2 ^ (floorlog 2 n - 1) \<le> n"
    using floorlog_bounds [of n 2] assms by simp
  ultimately have "n = 2 ^ ceillog2 n" using e by simp
  then show "\<exists>k. n = 2 ^ k" ..
next
  assume "\<exists>k. n = 2 ^ k"
  then obtain k where "n = 2 ^ k" ..
  then show "ceillog2 n = floorlog 2 n - 1" by (simp add: floorlog_2_power)
qed

lemma unat_two_power:
  assumes "k < 64"
  shows "unat (2 ^ k :: NativeInteger) = 2 ^ k"
proof -
  have b: "(2::nat) ^ k < 2 ^ 64"
    using assms by (rule power_strict_increasing) simp
  have "(2 ^ k :: NativeInteger) = of_nat (2 ^ k)" by simp
  then have "unat (2 ^ k :: NativeInteger) = (2 ^ k) mod 2 ^ LENGTH(64)"
    by (simp only: unat_of_nat)
  also have "\<dots> = 2 ^ k" using b by simp
  finally show ?thesis .
qed

lemma is_power_of_two_unat:
  "is_power_of_two p \<longleftrightarrow> (\<exists>k. unat p = 2 ^ k)"
proof
  assume "is_power_of_two p"
  then obtain k where "k < 64" "p = 2 ^ k" by (auto simp: is_power_of_two_def)
  then have "unat p = 2 ^ k" by (simp add: unat_two_power)
  then show "\<exists>k. unat p = 2 ^ k" ..
next
  assume "\<exists>k. unat p = 2 ^ k"
  then obtain k where k: "unat p = 2 ^ k" ..
  have "unat p < 2 ^ 64" using unsigned_less [of p] by simp
  then have "(2::nat) ^ k < 2 ^ 64" using k by simp
  then have k64: "k < 64" by (rule power_less_imp_less_exp [rotated]) simp
  then have "p = 2 ^ k"
    using k unat_two_power [OF k64] by (simp add: word_unat_eq_iff)
  with k64 show "is_power_of_two p" by (auto simp: is_power_of_two_def)
qed

lemma log2_ceil_ne_floor_iff:
  "log2_ceil_ne_floor p \<longleftrightarrow> p \<noteq> 0 \<and> \<not> is_power_of_two p"
proof (cases "p = 0")
  case True
  then show ?thesis by (simp add: log2_ceil_ne_floor_def)
next
  case False
  then have "0 < unat p" by (simp add: unat_gt_0)
  from log2_integral_nat [OF this] False show ?thesis
    by (simp add: log2_ceil_ne_floor_def is_power_of_two_unat)
qed

lemma LUT_loop_nonzero:
  "interval \<noteq> 0 \<Longrightarrow>
     LUT_loop f p interval outerval ns =
       (if \<exists>i\<in>set ns. p \<le> f (of_nat i div interval) p then Inl FunctionRangeError
        else Inr (map (\<lambda>i. f (of_nat i div interval) p * outerval) ns))"
  by (induction ns) (auto simp: NativeInteger_div_def Let_def)

lemma LUT_loop_zero:
  "ns \<noteq> [] \<Longrightarrow> LUT_loop f p 0 outerval ns = Inl DivisionByZero"
  by (cases ns) (simp_all add: NativeInteger_div_def)


lemma vecSize_small:
  assumes "q < 2 ^ 32"
  shows "unat (ucast (q :: NativeInteger) :: uint32_t) = unat q"
proof -
  have b: "unat q < 2 ^ 32" using assms by (simp add: word_less_nat_alt)
  have "(ucast q :: uint32_t) = of_nat (unat q)" by simp
  then have "unat (ucast q :: uint32_t) = unat q mod 2 ^ LENGTH(32)"
    by (simp only: unat_of_nat)
  with b show ?thesis by simp
qed

lemma interval_nonzero:
  assumes "p \<noteq> 0" and "p \<le> (q :: NativeInteger)"
  shows "q div p \<noteq> 0"
proof -
  have "0 < unat p" using assms(1) by (simp add: unat_gt_0)
  moreover have "unat p \<le> unat q" using assms(2) by (simp add: word_le_nat_alt)
  ultimately have "0 < unat q div unat p" by (simp add: div_greater_zero_iff)
  then have "0 < unat (q div p)" by (simp add: unat_div)
  then show ?thesis by (simp add: unat_gt_0)
qed

lemma GenerateLUT_run:
  assumes "\<not> log2_ceil_ne_floor p" and "p \<noteq> 0" and "p \<le> LUT_q ctx" and "LUT_q ctx < 2 ^ 32"
  shows "fst (GenerateLUTviaFunction f p ctx) =
           (if \<exists>i<unat (LUT_q ctx). p \<le> f (of_nat i div (LUT_q ctx div p)) p
            then Inl FunctionRangeError
            else Inr (map (\<lambda>i. f (of_nat i div (LUT_q ctx div p)) p * (LUT_q ctx div p))
                        [0..<unat (LUT_q ctx)]))"
proof -
  have nz: "LUT_q ctx div p \<noteq> 0" by (rule interval_nonzero [OF assms(2,3)])
  have "fst (GenerateLUTviaFunction f p ctx) =
          LUT_loop f p (LUT_q ctx div p) (LUT_q ctx div p) [0..<unat (LUT_q ctx)]"
    using assms(1,2) vecSize_small [OF assms(4)]
    by (simp add: GenerateLUTviaFunction_def LUT_q_def NativeInteger_div_def Let_def)
  then show ?thesis by (simp add: LUT_loop_nonzero [OF nz])
qed


lemma index_quotient:
  assumes qb: "(q :: NativeInteger) < 2 ^ 32" and that: "i < unat q"
  shows "unat (of_nat i div d :: NativeInteger) = i div unat d"
proof -
  have "unat q < 2 ^ 32" using qb by (simp add: word_less_nat_alt)
  with that have "i < 2 ^ 32" by (rule less_trans)
  then have "i < 2 ^ LENGTH(64)" by simp
  then have "i mod 2 ^ LENGTH(64) = i" by (rule mod_less)
  then have "unat (of_nat i :: NativeInteger) = i" by (simp only: unat_of_nat)
  then show ?thesis by (simp add: unat_div)
qed

lemma samples_are_Zp:
  assumes p0: "p \<noteq> 0" and le: "p \<le> (q :: NativeInteger)" and qb: "q < 2 ^ 32"
    and dv: "unat p dvd unat q"
  shows "(\<exists>i<unat q. P (of_nat i div (q div p) :: NativeInteger)) \<longleftrightarrow> (\<exists>m<p. P m)"
proof -
  let ?d = "unat (q div p)"
  have d: "?d = unat q div unat p" by (simp add: unat_div)
  have dpos: "0 < ?d" using interval_nonzero [OF p0 le] by (simp add: unat_gt_0)
  have qd: "unat q = unat p * ?d" using dv by (simp add: d)
  show ?thesis
  proof
    assume "\<exists>i<unat q. P (of_nat i div (q div p))"
    then obtain i where i: "i < unat q" and Pi: "P (of_nat i div (q div p))" by blast
    have "unat (of_nat i div (q div p) :: NativeInteger) = i div ?d"
      by (rule index_quotient [OF qb i])
    moreover have "i div ?d < unat p"
      using i qd by (simp add: less_mult_imp_div_less)
    ultimately have "(of_nat i div (q div p) :: NativeInteger) < p"
      by (simp add: word_less_nat_alt)
    with Pi show "\<exists>m<p. P m" by blast
  next
    assume "\<exists>m<p. P m"
    then obtain m where m: "m < p" and Pm: "P m" by blast
    let ?i = "unat m * ?d"
    have "unat m < unat p" using m by (simp add: word_less_nat_alt)
    then have i: "?i < unat q" using dpos qd by simp
    have "unat (of_nat ?i div (q div p) :: NativeInteger) = ?i div ?d"
      by (rule index_quotient [OF qb i])
    also have "\<dots> = unat m" using dpos by simp
    finally have "(of_nat ?i div (q div p) :: NativeInteger) = m"
      by (simp only: word_unat_eq_iff)
    with Pm i show "\<exists>i<unat q. P (of_nat i div (q div p))" by auto
  qed
qed

lemma power_of_two_nonzero:
  assumes "is_power_of_two p"
  shows "p \<noteq> 0"
proof -
  from assms obtain k where "k < 64" and "p = 2 ^ k" by (auto simp: is_power_of_two_def)
  then have "unat p = 2 ^ k" by (simp add: unat_two_power)
  then have "0 < unat p" by simp
  then show ?thesis using unat_gt_0 by blast
qed

lemma LUT_negate_mod_4: "fst (GenerateLUTviaFunction negate_mod 4 example_context) = Inr [0, 0, 6, 6, 4, 4, 2, 2]"
  by code_simp

lemma LUT_successor_4: "fst (GenerateLUTviaFunction successor 4 example_context) = Inl FunctionRangeError"
  by code_simp

lemma LUT_negate_mod_3: "fst (GenerateLUTviaFunction negate_mod 3 example_context) = Inl InvalidModulus"
  by code_simp

lemma LUT_zero_p0: "fst (GenerateLUTviaFunction zero_function 0 example_context) = Inl DivisionByZero"
  by code_simp

lemma LUT_zero_p16: "fst (GenerateLUTviaFunction zero_function 16 example_context) = Inl DivisionByZero"
  by code_simp

lemma LUT_origin_wide: "fst (GenerateLUTviaFunction zero_at_origin 4 wide_context) = Inr [0, 0, 0, 0]"
  by code_simp

lemma LUT_zero_wide: "fst (GenerateLUTviaFunction zero_function 4 wide_context) = Inr [0, 0, 0, 0]"
  by code_simp

lemma power_of_two_4: "is_power_of_two 4" unfolding is_power_of_two_def
  by (rule exI [of _ 2]) simp

lemma power_of_two_16: "is_power_of_two 16" unfolding is_power_of_two_def
  by (rule exI [of _ 4]) simp

lemma not_power_of_two_0: "\<not> is_power_of_two 0"
  using power_of_two_nonzero [of 0] by blast

lemma not_power_of_two_3: "\<not> is_power_of_two 3"
proof -
  have "log2_ceil_ne_floor 3" by code_simp
  then show ?thesis by (simp add: log2_ceil_ne_floor_iff)
qed

lemma LUT_q_example: "LUT_q example_context = 8"
  by (simp add: LUT_q_def example_context_def new_LWECryptoParams_def)

lemma LUT_q_wide: "LUT_q wide_context = 4294967300"
  by (simp add: LUT_q_def wide_context_def new_LWECryptoParams_def)

lemma InvalidModulus_iff:
  assumes "p \<noteq> 0"
  shows "fst (GenerateLUTviaFunction f p ctx) = Inl InvalidModulus \<longleftrightarrow> \<not> is_power_of_two p"
proof (cases "is_power_of_two p")
  case False
  then have "log2_ceil_ne_floor p" using assms by (simp add: log2_ceil_ne_floor_iff)
  then have "fst (GenerateLUTviaFunction f p ctx) = Inl InvalidModulus"
    by (simp add: GenerateLUTviaFunction_def)
  then show ?thesis using False by simp
next
  case True
  then have n: "\<not> log2_ceil_ne_floor p" by (simp add: log2_ceil_ne_floor_iff)
  have "LUT_loop f p i i ns \<noteq> Inl InvalidModulus" for i ns
  proof (induction ns)
    case Nil
    show ?case by simp
  next
    case (Cons a ns)
    then show ?case
      by (auto simp: NativeInteger_div_def Let_def split: sum.splits)
  qed
  then have "fst (GenerateLUTviaFunction f p ctx) \<noteq> Inl InvalidModulus"
    using n by (simp add: GenerateLUTviaFunction_def NativeInteger_div_def Let_def)
  then show ?thesis using True by simp
qed

lemma LUT_table:
  assumes pw: "is_power_of_two p" and le: "p \<le> LUT_q ctx" and qb: "LUT_q ctx < 2 ^ 32"
    and rng: "\<forall>i<unat (LUT_q ctx). f (of_nat i div (LUT_q ctx div p)) p < p"
  shows "\<exists>vec. fst (GenerateLUTviaFunction f p ctx) = Inr vec
           \<and> length vec = unat (LUT_q ctx)
           \<and> (\<forall>i<unat (LUT_q ctx).
                 vec ! i = f (of_nat i div (LUT_q ctx div p)) p * (LUT_q ctx div p))
           \<and> (\<forall>i<unat (LUT_q ctx). \<forall>j<unat (LUT_q ctx).
                 i div unat (LUT_q ctx div p) = j div unat (LUT_q ctx div p)
                   \<longrightarrow> vec ! i = vec ! j)"
proof -
  let ?q = "LUT_q ctx"
  let ?g = "\<lambda>i. f (of_nat i div (?q div p)) p * (?q div p)"
  have n: "\<not> log2_ceil_ne_floor p" using pw by (simp add: log2_ceil_ne_floor_iff)
  have p0: "p \<noteq> 0" using pw by (rule power_of_two_nonzero)
  have no: "\<not> (\<exists>i<unat ?q. p \<le> f (of_nat i div (?q div p)) p)"
    using rng by (simp add: not_le)
  have run: "fst (GenerateLUTviaFunction f p ctx) = Inr (map ?g [0..<unat ?q])"
    using GenerateLUT_run [OF n p0 le qb, of f] no by simp
  have const: "?g i = ?g j"
    if "i < unat ?q" "j < unat ?q" "i div unat (?q div p) = j div unat (?q div p)" for i j
  proof -
    have "unat (of_nat i div (?q div p) :: NativeInteger) = unat (of_nat j div (?q div p) :: NativeInteger)"
      using index_quotient [OF qb that(1)] index_quotient [OF qb that(2)] that(3) by simp
    then have "(of_nat i div (?q div p) :: NativeInteger) = of_nat j div (?q div p)"
      by (simp only: word_unat_eq_iff)
    then show ?thesis by (rule arg_cong)
  qed
  show ?thesis
  proof (intro exI conjI)
    show "fst (GenerateLUTviaFunction f p ctx) = Inr (map ?g [0..<unat ?q])" by (rule run)
    show "length (map ?g [0..<unat ?q]) = unat ?q" by simp
    show "\<forall>i<unat ?q. map ?g [0..<unat ?q] ! i = ?g i" by simp
    show "\<forall>i<unat ?q. \<forall>j<unat ?q. i div unat (?q div p) = j div unat (?q div p)
            \<longrightarrow> map ?g [0..<unat ?q] ! i = map ?g [0..<unat ?q] ! j"
    proof (intro allI impI)
      fix i j
      assume "i < unat ?q" and "j < unat ?q"
        and "i div unat (?q div p) = j div unat (?q div p)"
      then show "map ?g [0..<unat ?q] ! i = map ?g [0..<unat ?q] ! j"
        using const [of i j] by simp
    qed
  qed
qed

lemma Zp_covers_samples:
  assumes pw: "is_power_of_two p" and le: "p \<le> LUT_q ctx" and qb: "LUT_q ctx < 2 ^ 32"
    and dv: "unat p dvd unat (LUT_q ctx)" and rng: "\<forall>m<p. f m p < p"
  shows "\<forall>i<unat (LUT_q ctx). f (of_nat i div (LUT_q ctx div p)) p < p"
proof -
  have p0: "p \<noteq> 0" using pw by (rule power_of_two_nonzero)
  have "\<not> (\<exists>m<p. \<not> f m p < p)" using rng by simp
  then have "\<not> (\<exists>i<unat (LUT_q ctx). \<not> f (of_nat i div (LUT_q ctx div p)) p < p)"
    using samples_are_Zp [OF p0 le qb dv, of "\<lambda>m. \<not> f m p < p"] by simp
  then show ?thesis by simp
qed

lemma LUT_identity_decimal: "fst (GenerateLUTviaFunction identity_function 4 decimal_context) = Inl FunctionRangeError"
  by code_simp
lemma LUT_identity_4: "fst (GenerateLUTviaFunction identity_function 4 example_context) = Inr [0, 0, 2, 2, 4, 4, 6, 6]"
  by code_simp
lemma LUT_negate_mod_24: "fst (GenerateLUTviaFunction negate_mod 24 example_context) = Inl InvalidModulus"
  by code_simp
lemma not_power_of_two_24: "\<not> is_power_of_two 24"
proof -
  have "log2_ceil_ne_floor 24" by code_simp
  then show ?thesis by (simp add: log2_ceil_ne_floor_iff)
qed
lemma LUT_q_decimal: "LUT_q decimal_context = 10"
  by (simp add: LUT_q_def decimal_context_def new_LWECryptoParams_def)



lemma negate_mod_in_range: "negate_mod m 4 < 4"
  unfolding negate_mod_def by (rule word_mod_less_divisor) simp

text \<open>
  C6. The claim: \<open>GenerateLUTviaFunction\<close> fails with \<open>InvalidModulus\<close> exactly when
  \<open>p\<close> is not a power of two, and for a power of two it fails with
  \<open>FunctionRangeError\<close> exactly when \<open>f\<close> leaves \<open>Z_p\<close> at a sample point, and
  succeeds otherwise. At \<open>p = 0\<close>, which is no power of two, the guard passes and the
  division \<open>q / p\<close> fails. At \<open>p = 16\<close> with \<open>q = 8\<close> and the constant zero, a power of
  two and a function into \<open>Z_p\<close>, the interval \<open>q / p\<close> is zero and the first division by
  it fails. With \<open>q = 2^32 + 4\<close> and \<open>p = 4\<close> the table has four entries, all sampled at
  0, and the call succeeds although the function returns 4 at the sample point 1.
\<close>

theorem C6_LUT_errors_counterexample:
  "\<not> is_power_of_two 0
   \<and> fst (GenerateLUTviaFunction zero_function 0 example_context) = Inl DivisionByZero
   \<and> is_power_of_two 16
   \<and> fst (GenerateLUTviaFunction zero_function 16 example_context) = Inl DivisionByZero
   \<and> is_power_of_two 4 \<and> (1 :: NativeInteger) < 4 \<and> 4 \<le> zero_at_origin 1 4
   \<and> fst (GenerateLUTviaFunction zero_at_origin 4 wide_context) = Inr [0, 0, 0, 0]"
  by (simp add: not_power_of_two_0 power_of_two_16 power_of_two_4 LUT_zero_p0 LUT_zero_p16
        LUT_origin_wide zero_at_origin_def)

text \<open>
  C6, amended. For \<open>0 < p < 2^32\<close> the call fails with \<open>InvalidModulus\<close> exactly when
  \<open>p\<close> is not a power of two, whatever \<open>q\<close> is. When \<open>p\<close> is a power of two with
  \<open>p \<le> q < 2^32\<close>, it fails with \<open>FunctionRangeError\<close> exactly when \<open>f\<close> returns a value
  \<open>\<ge> p\<close> at one of the evaluated points \<open>i div (q / p)\<close>, \<open>i < q\<close>, and succeeds when it
  returns a value \<open>< p\<close> at all of them; when \<open>p\<close> divides \<open>q\<close> the evaluated points are
  exactly the values below \<open>p\<close>.
\<close>

theorem C6_LUT_errors:
  "(p \<noteq> 0 \<and> p < 2 ^ 32 \<longrightarrow>
      (fst (GenerateLUTviaFunction f p ctx) = Inl InvalidModulus \<longleftrightarrow> \<not> is_power_of_two p))
   \<and> (is_power_of_two p \<and> p \<le> LUT_q ctx \<and> LUT_q ctx < 2 ^ 32 \<longrightarrow>
        (fst (GenerateLUTviaFunction f p ctx) = Inl FunctionRangeError
           \<longleftrightarrow> (\<exists>i<unat (LUT_q ctx). p \<le> f (of_nat i div (LUT_q ctx div p)) p))
      \<and> ((\<forall>i<unat (LUT_q ctx). f (of_nat i div (LUT_q ctx div p)) p < p)
           \<longrightarrow> (\<exists>vec. fst (GenerateLUTviaFunction f p ctx) = Inr vec)))
   \<and> (p \<noteq> 0 \<and> p \<le> LUT_q ctx \<and> LUT_q ctx < 2 ^ 32 \<and> unat p dvd unat (LUT_q ctx) \<longrightarrow>
        ((\<exists>i<unat (LUT_q ctx). p \<le> f (of_nat i div (LUT_q ctx div p)) p)
           \<longleftrightarrow> (\<exists>m<p. p \<le> f m p)))"
proof (intro conjI impI)
  assume "p \<noteq> 0 \<and> p < 2 ^ 32"
  then show "fst (GenerateLUTviaFunction f p ctx) = Inl InvalidModulus \<longleftrightarrow> \<not> is_power_of_two p"
    by (simp add: InvalidModulus_iff)
next
  assume "p \<noteq> 0 \<and> p \<le> LUT_q ctx \<and> LUT_q ctx < 2 ^ 32 \<and> unat p dvd unat (LUT_q ctx)"
  then have a: "p \<noteq> 0" "p \<le> LUT_q ctx" "LUT_q ctx < 2 ^ 32" "unat p dvd unat (LUT_q ctx)"
    by simp_all
  show "(\<exists>i<unat (LUT_q ctx). p \<le> f (of_nat i div (LUT_q ctx div p)) p)
           \<longleftrightarrow> (\<exists>m<p. p \<le> f m p)"
    by (rule samples_are_Zp [OF a, of "\<lambda>m. p \<le> f m p"])
next
  assume h: "is_power_of_two p \<and> p \<le> LUT_q ctx \<and> LUT_q ctx < 2 ^ 32"
  then have n: "\<not> log2_ceil_ne_floor p" by (simp add: log2_ceil_ne_floor_iff)
  have p0: "p \<noteq> 0" using h power_of_two_nonzero by blast
  have le: "p \<le> LUT_q ctx" and qb: "LUT_q ctx < 2 ^ 32" using h by simp_all
  note run = GenerateLUT_run [OF n p0 le qb, of f]
  show "fst (GenerateLUTviaFunction f p ctx) = Inl FunctionRangeError
           \<longleftrightarrow> (\<exists>i<unat (LUT_q ctx). p \<le> f (of_nat i div (LUT_q ctx div p)) p)"
    unfolding run by simp
  assume "\<forall>i<unat (LUT_q ctx). f (of_nat i div (LUT_q ctx div p)) p < p"
  then have "\<not> (\<exists>i<unat (LUT_q ctx). p \<le> f (of_nat i div (LUT_q ctx div p)) p)"
    by (simp add: not_le)
  then show "\<exists>vec. fst (GenerateLUTviaFunction f p ctx) = Inr vec"
    unfolding run by simp
qed

theorem C6_LUT_errors_witness:
  "fst (GenerateLUTviaFunction negate_mod 24 example_context) = Inl InvalidModulus
   \<and> fst (GenerateLUTviaFunction negate_mod 4 example_context) \<noteq> Inl InvalidModulus
   \<and> fst (GenerateLUTviaFunction successor 4 example_context) = Inl FunctionRangeError
   \<and> (\<exists>vec. fst (GenerateLUTviaFunction negate_mod 4 example_context) = Inr vec)"
proof -
  have h24: "(24 :: NativeInteger) \<noteq> 0 \<and> (24 :: NativeInteger) < 2 ^ 32"
    and h4: "(4 :: NativeInteger) \<noteq> 0 \<and> (4 :: NativeInteger) < 2 ^ 32"
    by simp_all
  have r4: "is_power_of_two 4 \<and> 4 \<le> LUT_q example_context \<and> LUT_q example_context < 2 ^ 32"
    by (simp add: power_of_two_4 LUT_q_example)
  have d4: "(4 :: NativeInteger) \<noteq> 0 \<and> 4 \<le> LUT_q example_context
              \<and> LUT_q example_context < 2 ^ 32
              \<and> unat (4 :: NativeInteger) dvd unat (LUT_q example_context)"
    by (simp add: LUT_q_example)
  have esc: "\<exists>m<4. (4 :: NativeInteger) \<le> successor m 4"
    by (rule exI [of _ 3]) (simp add: successor_def)
  have a: "fst (GenerateLUTviaFunction negate_mod 24 example_context) = Inl InvalidModulus"
    using C6_LUT_errors [of 24 negate_mod example_context, THEN conjunct1, THEN mp, OF h24] not_power_of_two_24
    by simp
  have a': "fst (GenerateLUTviaFunction negate_mod 4 example_context) \<noteq> Inl InvalidModulus"
    using C6_LUT_errors [of 4 negate_mod example_context, THEN conjunct1, THEN mp, OF h4]
      power_of_two_4 by simp
  have "\<exists>i<unat (LUT_q example_context).
          4 \<le> successor (of_nat i div (LUT_q example_context div 4)) 4"
    using C6_LUT_errors [of 4 successor example_context, THEN conjunct2, THEN conjunct2, THEN mp, OF d4]
      esc by simp
  then have b: "fst (GenerateLUTviaFunction successor 4 example_context) = Inl FunctionRangeError"
    using C6_LUT_errors [of 4 successor example_context, THEN conjunct2, THEN conjunct1, THEN mp, OF r4,
                  THEN conjunct1] by simp
  have c: "\<exists>vec. fst (GenerateLUTviaFunction negate_mod 4 example_context) = Inr vec"
    using C6_LUT_errors [of 4 negate_mod example_context, THEN conjunct2, THEN conjunct1, THEN mp, OF r4,
                  THEN conjunct2] negate_mod_in_range by simp
  from a a' b c show ?thesis by (intro conjI)
qed

text \<open>
  C7. The claim: for every power of two \<open>p\<close> and every function into \<open>Z_p\<close> the call
  returns a table of length \<open>q\<close>. At \<open>p = 16\<close> with \<open>q = 8\<close> and the constant zero it
  returns no table; with \<open>q = 2^32 + 4\<close> and \<open>p = 4\<close> the table has four entries; and with
  \<open>q = 10\<close>, \<open>p = 4\<close> and the identity, which maps \<open>Z_4\<close> into \<open>Z_4\<close>, the index 8 is
  sampled at \<open>8 div 2 = 4\<close> and the call fails with \<open>FunctionRangeError\<close>.
\<close>

theorem C7_LUT_table_counterexample:
  "is_power_of_two 16
   \<and> fst (GenerateLUTviaFunction zero_function 16 example_context) = Inl DivisionByZero
   \<and> is_power_of_two 4 \<and> LUT_q wide_context = 4294967300
   \<and> fst (GenerateLUTviaFunction zero_function 4 wide_context) = Inr [0, 0, 0, 0]
   \<and> LUT_q decimal_context = 10
   \<and> fst (GenerateLUTviaFunction identity_function 4 decimal_context) = Inl FunctionRangeError"
  by (simp add: power_of_two_16 power_of_two_4 LUT_zero_p16 LUT_zero_wide LUT_q_wide
        LUT_q_decimal LUT_identity_decimal)

text \<open>
  C7, amended. For every power of two \<open>p \<le> q < 2^32\<close> and every function that returns a
  value below \<open>p\<close> at every evaluated point \<open>i div (q / p)\<close>, \<open>i < q\<close> (when \<open>p\<close>
  divides \<open>q\<close>: every function that maps \<open>Z_p\<close> into \<open>Z_p\<close>), the call returns a table
  of length \<open>q\<close> whose entry at index \<open>i\<close> is \<open>f (i div (q / p), p)\<close> times \<open>q / p\<close>; two
  indices with the same quotient by \<open>q / p\<close> carry the same entry.
\<close>

theorem C7_LUT_table:
  assumes "is_power_of_two p" and "p \<le> LUT_q ctx" and "LUT_q ctx < 2 ^ 32"
    and "(\<forall>i<unat (LUT_q ctx). f (of_nat i div (LUT_q ctx div p)) p < p)
         \<or> (unat p dvd unat (LUT_q ctx) \<and> (\<forall>m<p. f m p < p))"
  shows "\<exists>vec. fst (GenerateLUTviaFunction f p ctx) = Inr vec
           \<and> length vec = unat (LUT_q ctx)
           \<and> (\<forall>i<unat (LUT_q ctx).
                 vec ! i = f (of_nat i div (LUT_q ctx div p)) p * (LUT_q ctx div p))
           \<and> (\<forall>i<unat (LUT_q ctx). \<forall>j<unat (LUT_q ctx).
                 i div unat (LUT_q ctx div p) = j div unat (LUT_q ctx div p)
                   \<longrightarrow> vec ! i = vec ! j)"
proof -
  have "\<forall>i<unat (LUT_q ctx). f (of_nat i div (LUT_q ctx div p)) p < p"
    using assms(4) Zp_covers_samples [OF assms(1,2,3)] by blast
  then show ?thesis by (rule LUT_table [OF assms(1,2,3)])
qed

theorem C7_LUT_table_witness:
  "(\<exists>vec. fst (GenerateLUTviaFunction negate_mod 4 example_context) = Inr vec
      \<and> length vec = 8 \<and> vec ! 2 = 6 \<and> vec ! 2 = vec ! 3)
   \<and> (\<exists>vec. fst (GenerateLUTviaFunction identity_function 4 example_context) = Inr vec
      \<and> length vec = 8 \<and> vec ! 7 = 6 \<and> vec ! 6 = vec ! 7)"
proof -
  have h: "4 \<le> LUT_q example_context" "LUT_q example_context < 2 ^ 32"
    by (simp_all add: LUT_q_example)
  have d: "LUT_q example_context div 4 = 2" by (simp add: LUT_q_example)
  have r1: "(\<forall>i<unat (LUT_q example_context).
               negate_mod (of_nat i div (LUT_q example_context div 4)) 4 < 4)
            \<or> (unat (4 :: NativeInteger) dvd unat (LUT_q example_context)
                 \<and> (\<forall>m<4. negate_mod m 4 < 4))"
    by (simp add: negate_mod_in_range)
  have r2: "(\<forall>i<unat (LUT_q example_context).
               identity_function (of_nat i div (LUT_q example_context div 4)) 4 < 4)
            \<or> (unat (4 :: NativeInteger) dvd unat (LUT_q example_context)
                 \<and> (\<forall>m<4. identity_function m 4 < 4))"
    by (rule disjI2) (simp add: LUT_q_example identity_function_def)
  from C7_LUT_table [of 4 example_context negate_mod, OF power_of_two_4 h r1] obtain vec where
    v: "fst (GenerateLUTviaFunction negate_mod 4 example_context) = Inr vec"
    and l: "length vec = unat (LUT_q example_context)"
    and n: "\<forall>i<unat (LUT_q example_context).
               vec ! i = negate_mod (of_nat i div (LUT_q example_context div 4)) 4
                           * (LUT_q example_context div 4)"
    and c: "\<forall>i<unat (LUT_q example_context). \<forall>j<unat (LUT_q example_context).
               i div unat (LUT_q example_context div 4) = j div unat (LUT_q example_context div 4)
                 \<longrightarrow> vec ! i = vec ! j"
    by blast
  have "length vec = 8" using l by (simp add: LUT_q_example)
  moreover have "vec ! 2 = 6" using n [THEN spec, of 2] by (simp add: LUT_q_example negate_mod_def)
  moreover have "vec ! 2 = vec ! 3" using c [THEN spec, of 2, THEN mp, THEN spec, of 3]
    by (simp add: LUT_q_example)
  ultimately have first: "\<exists>vec. fst (GenerateLUTviaFunction negate_mod 4 example_context) = Inr vec
      \<and> length vec = 8 \<and> vec ! 2 = 6 \<and> vec ! 2 = vec ! 3"
    using v by blast
  from C7_LUT_table [of 4 example_context identity_function, OF power_of_two_4 h r2] obtain vec' where
    v': "fst (GenerateLUTviaFunction identity_function 4 example_context) = Inr vec'"
    and l': "length vec' = unat (LUT_q example_context)"
    and n': "\<forall>i<unat (LUT_q example_context).
               vec' ! i = identity_function (of_nat i div (LUT_q example_context div 4)) 4
                           * (LUT_q example_context div 4)"
    and c': "\<forall>i<unat (LUT_q example_context). \<forall>j<unat (LUT_q example_context).
               i div unat (LUT_q example_context div 4) = j div unat (LUT_q example_context div 4)
                 \<longrightarrow> vec' ! i = vec' ! j"
    by blast
  have "length vec' = 8" using l' by (simp add: LUT_q_example)
  moreover have "vec' ! 7 = 6" using n' [THEN spec, of 7]
    by (simp add: LUT_q_example identity_function_def)
  moreover have "vec' ! 6 = vec' ! 7" using c' [THEN spec, of 6, THEN mp, THEN spec, of 7]
    by (simp add: LUT_q_example)
  ultimately have second: "\<exists>vec. fst (GenerateLUTviaFunction identity_function 4 example_context) = Inr vec
      \<and> length vec = 8 \<and> vec ! 7 = 6 \<and> vec ! 6 = vec ! 7"
    using v' by blast
  from first second show ?thesis by (rule conjI)
qed

section \<open>Failure and the state it leaves\<close>

lemma failing_key_for:
  "key_for failing_engine example_context [1, 0] SYM_ENCRYPT b
     = (if b = 2 ^ 18 then Inl EngineError else Inr (key_at b))"
  by (simp add: key_for_def failing_engine_def example_engine_def key_at_def Change_BaseG_def)

lemma Change_BaseG_twice:
  "Change_BaseG b (Change_BaseG a c\<lparr>m_BTKey_map := m\<rparr>) = Change_BaseG b c\<lparr>m_BTKey_map := m\<rparr>"
  by (simp add: Change_BaseG_def)

lemma failing_run:
  "BTKeyGen failing_engine [1, 0] SYM_ENCRYPT example_context
     = (Inl EngineError,
        Change_BaseG (2 ^ 18) example_context\<lparr>m_BTKey_map := [(2 ^ 14, key_at (2 ^ 14))]\<rparr>)"
  by (simp add: BTKeyGen_def Let_def example_bases example_fields loop_Cons failing_key_for
        Change_BaseG_twice)

text \<open>
  C5. The claim: an operation that fails leaves the key map, the active key and the
  parameters as they were, in particular \<open>BTKeyGen\<close> with time optimization when key
  generation fails in the middle of the sweep. With an engine that raises under the second
  base \<open>2^18\<close>, the call fails, the key map has gained the entry of the first base, and
  the active gadget base is left at \<open>2^18\<close> instead of \<open>2^14\<close>.
\<close>

theorem C5_partial_failure_counterexample:
  "fst (BTKeyGen failing_engine [1, 0] SYM_ENCRYPT example_context) = Inl EngineError
   \<and> m_BTKey_map example_context = []
   \<and> m_BTKey_map (snd (BTKeyGen failing_engine [1, 0] SYM_ENCRYPT example_context))
       = [(2 ^ 14, key_at (2 ^ 14))]
   \<and> active_base example_context = 2 ^ 14
   \<and> active_base (snd (BTKeyGen failing_engine [1, 0] SYM_ENCRYPT example_context)) = 2 ^ 18"
  by (simp add: failing_run example_fields example_bases) (simp add: active_base_def)

lemma guarded_failure:
  "fst (if a then (Inl x, c) else if b then (Inl y, c) else if d then (Inl z, c)
        else if g then (Inl w, c) else (Inr (), B)) = Inl e \<longrightarrow>
   snd (if a then (Inl x, c) else if b then (Inl y, c) else if d then (Inl z, c)
        else if g then (Inl w, c) else (Inr (), B)) = c"
  by simp

lemma sweep_keys_step:
  "sweep_keys eng (Change_BaseG a ctx\<lparr>m_BTKey_map := m'\<rparr>) sk mode done m
     = sweep_keys eng ctx sk mode done m"
  by (simp add: sweep_keys_def)

lemma sweep_keys_Cons:
  "sweep_keys eng ctx sk mode (it # done) m
     = sweep_keys eng ctx sk mode done
         (AList.update (fst it) (projr (key_for eng ctx sk mode (fst it))) m)"
  by (simp add: sweep_keys_def)

lemma sweep_keys_map_of:
  "map_of (sweep_keys eng ctx sk mode done m) b
     = (if b \<in> fst ` set done then Some (projr (key_for eng ctx sk mode b)) else map_of m b)"
proof (induction "done" arbitrary: m)
  case Nil
  show ?case by (simp add: sweep_keys_def)
next
  case (Cons it rest)
  show ?case
    by (simp add: sweep_keys_Cons Cons.IH update_conv')
qed

lemma loop_fails_at:
  assumes "\<forall>b'\<in>fst ` set done. \<exists>k. key_for eng ctx sk mode b' = Inr k"
    and "key_for eng ctx sk mode b = Inl e"
  shows "BTKeyGen_loop eng sk mode (done @ (b, v) # rest) ctx
           = (Inl e, Change_BaseG b ctx\<lparr>m_BTKey_map := sweep_keys eng ctx sk mode done (m_BTKey_map ctx)\<rparr>)"
  using assms
proof (induction "done" arbitrary: ctx)
  case Nil
  then show ?case by (simp add: loop_Cons sweep_keys_def)
next
  case (Cons it rest')
  from Cons.prems(1) obtain k where k: "key_for eng ctx sk mode (fst it) = Inr k" by auto
  let ?c = "Change_BaseG (fst it) ctx\<lparr>m_BTKey_map := AList.update (fst it) k (m_BTKey_map ctx)\<rparr>"
  have a: "\<forall>b'\<in>fst ` set rest'. \<exists>k. key_for eng ?c sk mode b' = Inr k"
    using Cons.prems(1) by simp
  have b: "key_for eng ?c sk mode b = Inl e" using Cons.prems(2) by simp
  have "BTKeyGen_loop eng sk mode ((it # rest') @ (b, v) # rest) ctx
          = BTKeyGen_loop eng sk mode (rest' @ (b, v) # rest) ?c"
    using k by (simp add: loop_Cons)
  also have "\<dots> = (Inl e, Change_BaseG b ?c\<lparr>m_BTKey_map :=
                        sweep_keys eng ?c sk mode rest' (m_BTKey_map ?c)\<rparr>)"
    by (rule Cons.IH [OF a b])
  also have "\<dots> = (Inl e, Change_BaseG b ctx\<lparr>m_BTKey_map :=
                        sweep_keys eng ctx sk mode (it # rest') (m_BTKey_map ctx)\<rparr>)"
    using k by (simp add: sweep_keys_step sweep_keys_Cons Change_BaseG_twice)
  finally show ?case .
qed

lemma BTKeyGen_sweep_failure:
  assumes tO: "m_timeOptimization ctx"
    and gpm: "rgsw_Gpower_map (GetRingGSWParams (m_params ctx)) = done @ (b, v) # rest"
    and ok: "\<forall>b'\<in>fst ` set done. \<exists>k. key_for eng ctx sk mode b' = Inr k"
    and bad: "key_for eng ctx sk mode b = Inl e"
  shows "BTKeyGen eng sk mode ctx
           = (Inl e, Change_BaseG b ctx\<lparr>m_BTKey_map := sweep_keys eng ctx sk mode done (m_BTKey_map ctx)\<rparr>)"
  using tO gpm loop_fails_at [OF ok bad, of v rest]
  by (simp add: BTKeyGen_def Let_def)

lemma BTKeyGen_plain_failure:
  assumes "\<not> m_timeOptimization ctx" and "fst (BTKeyGen eng sk mode ctx) = Inl e"
  shows "snd (BTKeyGen eng sk mode ctx) = ctx"
  using assms
  by (simp add: BTKeyGen_def Let_def case_prod_beta split: if_splits sum.splits)

lemma BTKeyGen_empty_sweep_failure:
  assumes "m_timeOptimization ctx" and "rgsw_Gpower_map (GetRingGSWParams (m_params ctx)) = []"
    and "fst (BTKeyGen eng sk mode ctx) = Inl e"
  shows "snd (BTKeyGen eng sk mode ctx) = Change_BaseG (active_base ctx) ctx"
  using assms
  by (simp add: BTKeyGen_def Let_def case_prod_beta active_base_def split: if_splits sum.splits)


text \<open>
  C5, amended. A failing security-profile resolution, a failing lookup-table construction
  and a failing \<open>BTKeyGen\<close> without time optimization leave the context as it was
  (\<open>SwitchCTtoqn\<close> and \<open>EvalNOT\<close> cannot write to it at all). When \<open>BTKeyGen\<close> with
  time optimization fails at a base \<open>b\<close> of the gadget-power map, after generating the keys
  of the bases before it, the call leaves the state the sweep has written so far: the keys
  of the earlier bases are stored under their bases and every other map entry is as
  before, the RingGSW parameters are as \<open>Change_BaseG b\<close> left them, so that \<open>b\<close> is the
  active gadget base, and the active key is unchanged. When the gadget-power map is empty
  and the single key generation fails, the context is as \<open>Change_BaseG\<close> with the base that
  was active leaves it.
\<close>

theorem C5_failure_state:
  "(fst (GenerateBinFHEContext eng pset arbFunc logQ N method timeOptimization ctx) = Inl e \<longrightarrow>
      snd (GenerateBinFHEContext eng pset arbFunc logQ N method timeOptimization ctx) = ctx)
   \<and> snd (GenerateLUTviaFunction f p ctx) = ctx
   \<and> (\<not> m_timeOptimization ctx \<and> fst (BTKeyGen eng sk mode ctx) = Inl e \<longrightarrow>
        snd (BTKeyGen eng sk mode ctx) = ctx)
   \<and> (m_timeOptimization ctx
        \<and> rgsw_Gpower_map (GetRingGSWParams (m_params ctx)) = done @ (b, v) # rest
        \<and> (\<forall>b'\<in>fst ` set done. \<exists>k. key_for eng ctx sk mode b' = Inr k)
        \<and> key_for eng ctx sk mode b = Inl e \<longrightarrow>
          BTKeyGen eng sk mode ctx
            = (Inl e, Change_BaseG b ctx\<lparr>m_BTKey_map :=
                        sweep_keys eng ctx sk mode done (m_BTKey_map ctx)\<rparr>)
        \<and> active_base (snd (BTKeyGen eng sk mode ctx)) = b
        \<and> m_BTKey (snd (BTKeyGen eng sk mode ctx)) = m_BTKey ctx
        \<and> (\<forall>b'. map_of (m_BTKey_map (snd (BTKeyGen eng sk mode ctx))) b'
                  = (if b' \<in> fst ` set done then Some (projr (key_for eng ctx sk mode b'))
                     else map_of (m_BTKey_map ctx) b')))
   \<and> (m_timeOptimization ctx
        \<and> rgsw_Gpower_map (GetRingGSWParams (m_params ctx)) = []
        \<and> fst (BTKeyGen eng sk mode ctx) = Inl e \<longrightarrow>
          snd (BTKeyGen eng sk mode ctx) = Change_BaseG (active_base ctx) ctx)"
proof (intro conjI)
  show "fst (GenerateBinFHEContext eng pset arbFunc logQ N method timeOptimization ctx) = Inl e \<longrightarrow>
      snd (GenerateBinFHEContext eng pset arbFunc logQ N method timeOptimization ctx) = ctx"
    unfolding GenerateBinFHEContext_def by (rule guarded_failure)
  show "snd (GenerateLUTviaFunction f p ctx) = ctx"
    by (simp add: GenerateLUTviaFunction_def)
  show "\<not> m_timeOptimization ctx \<and> fst (BTKeyGen eng sk mode ctx) = Inl e \<longrightarrow>
        snd (BTKeyGen eng sk mode ctx) = ctx"
    using BTKeyGen_plain_failure by blast
  show "m_timeOptimization ctx
        \<and> rgsw_Gpower_map (GetRingGSWParams (m_params ctx)) = []
        \<and> fst (BTKeyGen eng sk mode ctx) = Inl e \<longrightarrow>
          snd (BTKeyGen eng sk mode ctx) = Change_BaseG (active_base ctx) ctx"
    using BTKeyGen_empty_sweep_failure by blast
  show "m_timeOptimization ctx
        \<and> rgsw_Gpower_map (GetRingGSWParams (m_params ctx)) = done @ (b, v) # rest
        \<and> (\<forall>b'\<in>fst ` set done. \<exists>k. key_for eng ctx sk mode b' = Inr k)
        \<and> key_for eng ctx sk mode b = Inl e \<longrightarrow>
          BTKeyGen eng sk mode ctx
            = (Inl e, Change_BaseG b ctx\<lparr>m_BTKey_map :=
                        sweep_keys eng ctx sk mode done (m_BTKey_map ctx)\<rparr>)
        \<and> active_base (snd (BTKeyGen eng sk mode ctx)) = b
        \<and> m_BTKey (snd (BTKeyGen eng sk mode ctx)) = m_BTKey ctx
        \<and> (\<forall>b'. map_of (m_BTKey_map (snd (BTKeyGen eng sk mode ctx))) b'
                  = (if b' \<in> fst ` set done then Some (projr (key_for eng ctx sk mode b'))
                     else map_of (m_BTKey_map ctx) b'))"
  proof (rule impI, elim conjE)
    assume tO: "m_timeOptimization ctx"
      and gpm: "rgsw_Gpower_map (GetRingGSWParams (m_params ctx)) = done @ (b, v) # rest"
      and ok: "\<forall>b'\<in>fst ` set done. \<exists>k. key_for eng ctx sk mode b' = Inr k"
      and bad: "key_for eng ctx sk mode b = Inl e"
    note run = BTKeyGen_sweep_failure [OF tO gpm ok bad]
    show "BTKeyGen eng sk mode ctx
            = (Inl e, Change_BaseG b ctx\<lparr>m_BTKey_map :=
                        sweep_keys eng ctx sk mode done (m_BTKey_map ctx)\<rparr>)
        \<and> active_base (snd (BTKeyGen eng sk mode ctx)) = b
        \<and> m_BTKey (snd (BTKeyGen eng sk mode ctx)) = m_BTKey ctx
        \<and> (\<forall>b'. map_of (m_BTKey_map (snd (BTKeyGen eng sk mode ctx))) b'
                  = (if b' \<in> fst ` set done then Some (projr (key_for eng ctx sk mode b'))
                     else map_of (m_BTKey_map ctx) b'))"
      unfolding run by (simp add: active_base_def sweep_keys_map_of)
  qed
qed

lemma bare_fields:
  "m_timeOptimization bare_context" "m_BTKey_map bare_context = []"
  "rgsw_Gpower_map (GetRingGSWParams (m_params bare_context)) = []"
  "active_base bare_context = 2 ^ 18"
  by (simp_all add: bare_context_def example_context_def new_RingGSWCryptoParams_def
        example_engine_def active_base_def)

lemma bare_plain_fails:
  "fst (BTKeyGen failing_engine [1, 0] SYM_ENCRYPT (bare_context\<lparr>m_timeOptimization := False\<rparr>))
     = Inl EngineError"
  using bare_fields
  by (simp add: BTKeyGen_def Let_def active_base_def failing_engine_def)

lemma bare_sweep_fails:
  "fst (BTKeyGen failing_engine [1, 0] SYM_ENCRYPT bare_context) = Inl EngineError"
  using bare_fields
  by (simp add: BTKeyGen_def Let_def active_base_def failing_engine_def Change_BaseG_def)

theorem C5_failure_state_witness:
  "snd (GenerateBinFHEContext example_engine TOY False 10 0 GINX False example_context)
     = example_context
   \<and> fst (GenerateLUTviaFunction negate_mod 3 example_context) = Inl InvalidModulus
   \<and> snd (GenerateLUTviaFunction negate_mod 3 example_context) = example_context
   \<and> fst (BTKeyGen failing_engine [1, 0] SYM_ENCRYPT (bare_context\<lparr>m_timeOptimization := False\<rparr>))
       = Inl EngineError
   \<and> snd (BTKeyGen failing_engine [1, 0] SYM_ENCRYPT (bare_context\<lparr>m_timeOptimization := False\<rparr>))
       = bare_context\<lparr>m_timeOptimization := False\<rparr>
   \<and> BTKeyGen failing_engine [1, 0] SYM_ENCRYPT example_context
       = (Inl EngineError,
          Change_BaseG (2 ^ 18) example_context\<lparr>m_BTKey_map := [(2 ^ 14, key_at (2 ^ 14))]\<rparr>)
   \<and> active_base (snd (BTKeyGen failing_engine [1, 0] SYM_ENCRYPT example_context)) = 2 ^ 18
   \<and> m_BTKey (snd (BTKeyGen failing_engine [1, 0] SYM_ENCRYPT example_context))
       = default_RingGSWBTKey
   \<and> map_of (m_BTKey_map (snd (BTKeyGen failing_engine [1, 0] SYM_ENCRYPT example_context)))
        (2 ^ 14) = Some (key_at (2 ^ 14))
   \<and> fst (BTKeyGen failing_engine [1, 0] SYM_ENCRYPT bare_context) = Inl EngineError
   \<and> snd (BTKeyGen failing_engine [1, 0] SYM_ENCRYPT bare_context)
       = Change_BaseG (2 ^ 18) bare_context"
proof -
  have g: "fst (GenerateBinFHEContext example_engine TOY False 10 0 GINX False example_context)
             = Inl ModulusOutOfRange"
    by (simp add: GenerateBinFHEContext_def)
  note G = C5_failure_state [of example_engine TOY False 10 0 GINX False example_context
             ModulusOutOfRange, THEN conjunct1, THEN mp, OF g]
  note L = C5_failure_state [of example_engine TOY False 10 0 GINX False example_context
             ModulusOutOfRange negate_mod 3, THEN conjunct2, THEN conjunct1]
  have p: "\<not> m_timeOptimization (bare_context\<lparr>m_timeOptimization := False\<rparr>)
           \<and> fst (BTKeyGen failing_engine [1, 0] SYM_ENCRYPT
                    (bare_context\<lparr>m_timeOptimization := False\<rparr>)) = Inl EngineError"
    by (simp add: bare_plain_fails)
  note P = C5_failure_state [of failing_engine TOY False 10 0 GINX False
             "bare_context\<lparr>m_timeOptimization := False\<rparr>" EngineError negate_mod 3
             "[1, 0]" SYM_ENCRYPT,
             THEN conjunct2, THEN conjunct2, THEN conjunct1, THEN mp, OF p]
  have s: "m_timeOptimization example_context
        \<and> rgsw_Gpower_map (GetRingGSWParams (m_params example_context))
            = [(2 ^ 14, [])] @ (2 ^ 18, []) # [(2 ^ 27, [])]
        \<and> (\<forall>b'\<in>fst ` set [(2 ^ 14 :: uint32_t, [] :: NativeInteger list)].
              \<exists>k. key_for failing_engine example_context [1, 0] SYM_ENCRYPT b' = Inr k)
        \<and> key_for failing_engine example_context [1, 0] SYM_ENCRYPT (2 ^ 18) = Inl EngineError"
    by (simp add: example_fields example_bases failing_key_for)
  note S = C5_failure_state [of failing_engine TOY False 10 0 GINX False example_context EngineError
             negate_mod 3 "[1, 0]" SYM_ENCRYPT "[(2 ^ 14, [])]" "2 ^ 18" "[]" "[(2 ^ 27, [])]",
             THEN conjunct2, THEN conjunct2, THEN conjunct2, THEN conjunct1, THEN mp, OF s]
  have k: "sweep_keys failing_engine example_context [1, 0] SYM_ENCRYPT [(2 ^ 14, [])]
             (m_BTKey_map example_context) = [(2 ^ 14, key_at (2 ^ 14))]"
    by (simp add: sweep_keys_def failing_key_for example_fields)
  have e: "m_timeOptimization bare_context
        \<and> rgsw_Gpower_map (GetRingGSWParams (m_params bare_context)) = []
        \<and> fst (BTKeyGen failing_engine [1, 0] SYM_ENCRYPT bare_context) = Inl EngineError"
    by (simp add: bare_fields bare_sweep_fails)
  note E = C5_failure_state [of failing_engine TOY False 10 0 GINX False bare_context EngineError
             negate_mod 3 "[1, 0]" SYM_ENCRYPT,
             THEN conjunct2, THEN conjunct2, THEN conjunct2, THEN conjunct2, THEN mp, OF e]
  have S1: "BTKeyGen failing_engine [1, 0] SYM_ENCRYPT example_context
       = (Inl EngineError,
          Change_BaseG (2 ^ 18) example_context\<lparr>m_BTKey_map := [(2 ^ 14, key_at (2 ^ 14))]\<rparr>)"
    using S [THEN conjunct1] by (simp only: k)
  have S2: "active_base (snd (BTKeyGen failing_engine [1, 0] SYM_ENCRYPT example_context)) = 2 ^ 18"
    by (rule S [THEN conjunct2, THEN conjunct1])
  have S3: "m_BTKey (snd (BTKeyGen failing_engine [1, 0] SYM_ENCRYPT example_context))
       = default_RingGSWBTKey"
    using S [THEN conjunct2, THEN conjunct2, THEN conjunct1] by (simp add: example_fields)
  have S4: "map_of (m_BTKey_map (snd (BTKeyGen failing_engine [1, 0] SYM_ENCRYPT example_context)))
        (2 ^ 14) = Some (key_at (2 ^ 14))"
    using S [THEN conjunct2, THEN conjunct2, THEN conjunct2, THEN spec, of "2 ^ 14"]
    by (simp add: failing_key_for)
  have E1: "snd (BTKeyGen failing_engine [1, 0] SYM_ENCRYPT bare_context)
       = Change_BaseG (2 ^ 18) bare_context"
    using E by (simp add: bare_fields)
  show ?thesis
    using G L LUT_negate_mod_3 P bare_plain_fails S1 S2 S3 S4 bare_sweep_fails E1
    by (intro conjI)
qed

end
